theory Spec2Isabelle
  imports Complex_Main
begin

section \<open>deep2nep: conversion of deepmd directories to a nep train.in file\<close>

text \<open>
  The development embeds \<^verbatim>\<open>tools/nep_related/deep2nep.py\<close>. numpy arrays are lists
  (nested lists for several axes), finite float64 values are the real numbers they denote (the
  program copies them; its one computation on them is the volume, see there), Python
  dictionaries with a fixed set of string keys are
  records whose optional keys are option-valued fields, and every exception is a value
  of the type \<open>error\<close>, returned as \<open>Inl\<close>.
\<close>

datatype error =
    FileNotFoundError
  | ValueError
  | AssertionError
  | UnboundLocalError
  | KeyError
  | IndexError
  | TypeError

text \<open>Sequencing of steps that may raise: the first exception ends the computation.\<close>

definition bind :: "error + 'a \<Rightarrow> ('a \<Rightarrow> error + 'b) \<Rightarrow> error + 'b" where
  "bind m f = (case m of Inl e \<Rightarrow> Inl e | Inr x \<Rightarrow> f x)"

text \<open>\<^verbatim>\<open>xs[i]\<close> for a non-negative index: IndexError out of range.\<close>

definition get_at :: "'a list \<Rightarrow> nat \<Rightarrow> error + 'a" where
  "get_at xs i = (if i < length xs then Inr (xs ! i) else Inl IndexError)"

text \<open>\<^verbatim>\<open>xs[i] = v\<close> on a preallocated array: IndexError out of range.\<close>

definition set_at :: "'a list \<Rightarrow> nat \<Rightarrow> 'a \<Rightarrow> error + 'a list" where
  "set_at xs i v = (if i < length xs then Inr (xs[i := v]) else Inl IndexError)"

text \<open>\<^verbatim>\<open>d[key]\<close> for an optional key of a dictionary: KeyError when absent.\<close>

definition get_key :: "'a option \<Rightarrow> error + 'a" where
  "get_key v = (case v of None \<Rightarrow> Inl KeyError | Some x \<Rightarrow> Inr x)"

subsection \<open>Text rendering of integers\<close>

definition digit_char :: "nat \<Rightarrow> char" where
  "digit_char d = ''0123456789'' ! d"

text \<open>\<^verbatim>\<open>str(n)\<close> and \<^verbatim>\<open>'%d' % n\<close> for a non-negative integer.\<close>

fun str_nat :: "nat \<Rightarrow> string" where
  "str_nat n = (if n < 10 then [digit_char n]
                else str_nat (n div 10) @ [digit_char (n mod 10)])"

declare str_nat.simps [simp del]

text \<open>\<^verbatim>\<open>str(i)\<close> for any integer.\<close>

definition str_int :: "int \<Rightarrow> string" where
  "str_int i = (if i < 0 then CHR ''-'' # str_nat (nat (- i)) else str_nat (nat i))"

text \<open>\<^verbatim>\<open>sep.join(xs)\<close>.\<close>

fun join :: "string \<Rightarrow> string list \<Rightarrow> string" where
  "join sep [] = []"
| "join sep [x] = x"
| "join sep (x # y # ys) = x @ sep @ join sep (y # ys)"

subsection \<open>\<^verbatim>\<open>convervirial\<close>\<close>

text \<open>
  \<^verbatim>\<open>invirial[i,j]\<close> on a two-axis array, given as the list of its rows.
\<close>

definition idx2 :: "real list list \<Rightarrow> nat \<Rightarrow> nat \<Rightarrow> error + real" where
  "idx2 m i j = bind (get_at m i) (\<lambda>row. get_at row j)"

definition convervirial :: "real list list \<Rightarrow> error + real list" where
  "convervirial invirial =
     bind (idx2 invirial 0 0) (\<lambda>vxx.
     bind (idx2 invirial 0 1) (\<lambda>vxy.
     bind (idx2 invirial 0 2) (\<lambda>vzx.
     bind (idx2 invirial 1 1) (\<lambda>vyy.
     bind (idx2 invirial 1 2) (\<lambda>vyz.
     bind (idx2 invirial 2 2) (\<lambda>vzz.
     Inr [vxx, vyy, vzz, vxy, vyz, vzx]))))))"

subsection \<open>\<^verbatim>\<open>vec2volume\<close>\<close>

text \<open>
  The volume is the only quantity that the program computes in floating point. Its
  arithmetic is idealised here: the operations of \<open>cross\<close> and \<open>dot\<close> are those of the
  real numbers, without the rounding and the overflow of float64 (whose result also
  depends on how the linear algebra library behind \<^verbatim>\<open>np.dot\<close> sums and fuses the
  products). No theorem of this theory states the value that \<open>vec2volume\<close> returns; they
  use only that it returns one for 9 components. The volume is not written by \<open>dump\<close>.
\<close>

text \<open>
  \<^verbatim>\<open>np.cross\<close> of two one-axis arrays. Two 3-component vectors give the vector
  product. The arguments of \<open>vec2volume\<close> are slices of a row of the 9-column array
  \<^verbatim>\<open>data['cells']\<close>, so they always have 3 components; numpy raises ValueError for
  vectors that have neither 2 nor 3 components, and its legacy treatment of
  2-component vectors is not reached and is not modelled (it is put with the error).
\<close>

fun cross :: "real list \<Rightarrow> real list \<Rightarrow> error + real list" where
  "cross [b0, b1, b2] [c0, c1, c2] =
     Inr [b1 * c2 - b2 * c1, b2 * c0 - b0 * c2, b0 * c1 - b1 * c0]"
| "cross _ _ = Inl ValueError"

text \<open>\<^verbatim>\<open>np.dot\<close> of two one-axis arrays: ValueError when the lengths differ.\<close>

definition dot :: "real list \<Rightarrow> real list \<Rightarrow> error + real" where
  "dot u v = (if length u = length v then Inr (\<Sum>p\<leftarrow>zip u v. fst p * snd p)
              else Inl ValueError)"

definition vec2volume :: "real list \<Rightarrow> error + real" where
  "vec2volume cells =
     (let va = take 3 cells; vb = take 3 (drop 3 cells); vc = drop 6 cells
      in bind (cross vb vc) (\<lambda>w. dot va w))"

subsection \<open>\<^verbatim>\<open>load_type\<close>\<close>

text \<open>
  A Python string is the list of its Unicode code points. The text of a file is the
  string that \<^verbatim>\<open>fp.read()\<close> returns, after decoding; \<open>ustr\<close> gives the string of an
  ASCII literal.
\<close>

type_synonym ustring = "nat list"

definition ustr :: "string \<Rightarrow> ustring" where
  "ustr s = map of_char s"

text \<open>
  \<^verbatim>\<open>s.split()\<close>: the maximal runs of characters that are not white space. The white
  space of a Python string is the set of code points of CPython's
  \<^verbatim>\<open>_PyUnicode_IsWhitespace\<close>: U+0009 to U+000D, U+001C to U+0020, U+0085, U+00A0,
  U+1680, U+2000 to U+200A, U+2028, U+2029, U+202F, U+205F and U+3000.
\<close>

definition is_space :: "nat \<Rightarrow> bool" where
  "is_space c \<longleftrightarrow>
     (0x0009 \<le> c \<and> c \<le> 0x000D) \<or> (0x001C \<le> c \<and> c \<le> 0x0020) \<or> c = 0x0085
     \<or> c = 0x00A0 \<or> c = 0x1680 \<or> (0x2000 \<le> c \<and> c \<le> 0x200A) \<or> c = 0x2028
     \<or> c = 0x2029 \<or> c = 0x202F \<or> c = 0x205F \<or> c = 0x3000"

fun split_acc :: "ustring \<Rightarrow> ustring \<Rightarrow> ustring list" where
  "split_acc cur [] = (if cur = [] then [] else [cur])"
| "split_acc cur (c # cs) =
     (if is_space c then (if cur = [] then split_acc [] cs else cur # split_acc [] cs)
      else split_acc (cur @ [c]) cs)"

definition split_ws :: "ustring \<Rightarrow> ustring list" where
  "split_ws s = split_acc [] s"

text \<open>
  The dictionary that \<open>load_type\<close> returns. \<^verbatim>\<open>type.raw\<close> is given by the one-axis
  array of integers that \<^verbatim>\<open>np.loadtxt(..., ndmin=1).astype(int)\<close> reads from it
  (\<open>None\<close> when the file does not exist), \<^verbatim>\<open>type_map.raw\<close> by its text (\<open>None\<close>
  when it is not a file), the argument \<^verbatim>\<open>type_map\<close> by a list of strings (\<open>None\<close>
  for the default).
\<close>

record topology =
  atom_types :: "int list"
  atom_numbs :: "nat list"
  atom_names :: "ustring list"

text \<open>The local variable \<^verbatim>\<open>my_type_map\<close>, lines 72 to 82.\<close>

definition my_type_map :: "ustring option \<Rightarrow> ustring list option \<Rightarrow> int \<Rightarrow> ustring list" where
  "my_type_map type_map_raw type_map ntypes =
     (case type_map_raw of
        Some text \<Rightarrow> split_ws text
      | None \<Rightarrow>
          (case type_map of
             Some names \<Rightarrow> names
           | None \<Rightarrow> map (\<lambda>ii. ustr (''Type_'' @ str_int ii)) [0..ntypes - 1]))"

text \<open>
  \<^verbatim>\<open>np.max\<close> of an empty array raises ValueError; \<^verbatim>\<open>range(ntypes)\<close> is
  \<open>[0..ntypes - 1]\<close>, empty when \<open>ntypes \<le> 0\<close>.
\<close>

definition load_type ::
  "int list option \<Rightarrow> ustring option \<Rightarrow> ustring list option \<Rightarrow> error + topology" where
  "load_type type_raw type_map_raw type_map =
     (case type_raw of
        None \<Rightarrow> Inl FileNotFoundError
      | Some types \<Rightarrow>
          if types = [] then Inl ValueError
          else
            let ntypes = Max (set types) + 1;
                numbs = map (\<lambda>ii. count_list types ii) [0..ntypes - 1];
                names = my_type_map type_map_raw type_map ntypes
            in if \<not> length names \<ge> length numbs then Inl AssertionError
               else Inr \<lparr>atom_types = types, atom_numbs = numbs,
                         atom_names = map (\<lambda>ii. names ! ii) [0..<length numbs]\<rparr>)"

subsection \<open>\<^verbatim>\<open>load_set\<close> and \<^verbatim>\<open>to_system_data\<close>\<close>

text \<open>
  A \<^verbatim>\<open>set.*\<close> directory: each \<^verbatim>\<open>.npy\<close> file is given by the elements of its array
  in row-major order (every reshape of the program depends on them only), \<open>None\<close> when
  the file does not exist.
\<close>

record set_dir =
  box_npy :: "real list option"
  coord_npy :: "real list option"
  energy_npy :: "real list option"
  force_npy :: "real list option"
  virial_npy :: "real list option"

text \<open>
  A system directory. \<open>sets\<close> lists its \<^verbatim>\<open>set.*\<close> entries in the order of
  \<^verbatim>\<open>sorted(glob.glob(...))\<close>.
\<close>

record system_dir =
  type_raw :: "int list option"
  type_map_raw :: "ustring option"
  nopbc_file :: bool
  sets :: "set_dir list"

definition np_load :: "real list option \<Rightarrow> error + real list" where
  "np_load file = (case file of None \<Rightarrow> Inl FileNotFoundError | Some a \<Rightarrow> Inr a)"

definition cond_load_data :: "real list option \<Rightarrow> error + real list option" where
  "cond_load_data file =
     (case file of None \<Rightarrow> Inr None | Some a \<Rightarrow> bind (np_load (Some a)) (\<lambda>tmp. Inr (Some tmp)))"

definition load_set ::
  "set_dir \<Rightarrow> error + (real list \<times> real list \<times> real list option \<times> real list option \<times> real list option)" where
  "load_set folder =
     bind (np_load (box_npy folder)) (\<lambda>cells.
     bind (np_load (coord_npy folder)) (\<lambda>coords.
     bind (cond_load_data (energy_npy folder)) (\<lambda>eners.
     bind (cond_load_data (force_npy folder)) (\<lambda>forces.
     bind (cond_load_data (virial_npy folder)) (\<lambda>virs.
     Inr (cells, coords, eners, forces, virs))))))"

text \<open>
  Row-major regrouping: \<open>chunk n w xs\<close> is the list of the \<open>n\<close> consecutive blocks of
  \<open>w\<close> elements of \<open>xs\<close>.
\<close>

definition chunk :: "nat \<Rightarrow> nat \<Rightarrow> 'a list \<Rightarrow> 'a list list" where
  "chunk n w xs = map (\<lambda>k. take w (drop (k * w) xs)) [0..<n]"

text \<open>\<^verbatim>\<open>np.reshape(a, [-1,3,3])\<close>: ValueError unless the size is a multiple of 9.\<close>

definition reshape_m1_3_3 :: "real list \<Rightarrow> error + real list list list" where
  "reshape_m1_3_3 a =
     (if length a mod 9 \<noteq> 0 then Inl ValueError
      else let n = length a div 9 in Inr (chunk n 3 (chunk (n * 3) 3 a)))"

text \<open>
  \<^verbatim>\<open>np.reshape(a, [n,-1,3])\<close>: ValueError when the unknown axis cannot be found, which
  is when \<open>n = 0\<close> or the size is not a multiple of \<open>3 n\<close>.
\<close>

definition reshape_n_m1_3 :: "real list \<Rightarrow> nat \<Rightarrow> error + real list list list" where
  "reshape_n_m1_3 a n =
     (if n * 3 = 0 \<or> length a mod (n * 3) \<noteq> 0 then Inl ValueError
      else let natoms = length a div (n * 3) in Inr (chunk n natoms (chunk (n * natoms) 3 a)))"

text \<open>\<^verbatim>\<open>np.reshape(a, [n])\<close>.\<close>

definition reshape_n :: "real list \<Rightarrow> nat \<Rightarrow> error + real list" where
  "reshape_n a n = (if length a = n then Inr a else Inl ValueError)"

text \<open>\<^verbatim>\<open>np.reshape(a, [n,3,3])\<close>.\<close>

definition reshape_n_3_3 :: "real list \<Rightarrow> nat \<Rightarrow> error + real list list list" where
  "reshape_n_3_3 a n =
     (if length a = n * 9 then Inr (chunk n 3 (chunk (n * 3) 3 a)) else Inl ValueError)"

text \<open>
  \<^verbatim>\<open>np.concatenate(arrays, axis = 0)\<close> for arrays whose shapes agree after the first
  axis (here: one axis, or the shape \<open>(n,3,3)\<close>): ValueError for no array.
\<close>

definition concatenate :: "'a list list \<Rightarrow> error + 'a list" where
  "concatenate arrays = (if arrays = [] then Inl ValueError else Inr (concat arrays))"

text \<open>
  \<^verbatim>\<open>np.concatenate(arrays, axis = 0)\<close> for arrays of shape \<open>(n,natoms,3)\<close>: ValueError
  also when the arrays do not agree on \<open>natoms\<close>. Every array that reaches it has at
  least one frame (\<open>reshape_n_m1_3\<close> refuses \<open>n = 0\<close>), so the arrays agree on
  \<open>natoms\<close> exactly when all their frames have the same number of rows.
\<close>

definition concatenate_frames :: "real list list list list \<Rightarrow> error + real list list list" where
  "concatenate_frames arrays =
     (if arrays = [] then Inl ValueError
      else let fs = concat arrays
           in if list_all (\<lambda>f. length f = length (hd fs)) fs then Inr fs else Inl ValueError)"

text \<open>
  The local variables of the loop over the sets, lines 103 to 120. \<open>nframes\<close> is
  \<open>None\<close> as long as the variable is unbound.
\<close>

record set_acc =
  nframes :: "nat option"
  all_cells :: "real list list list list"
  all_coords :: "real list list list list"
  all_eners :: "real list list"
  all_forces :: "real list list list list"
  all_virs :: "real list list list list"

definition empty_acc :: set_acc where
  "empty_acc = \<lparr>nframes = None, all_cells = [], all_coords = [], all_eners = [],
                 all_forces = [], all_virs = []\<rparr>"

text \<open>One iteration of the loop, lines 109 to 120.\<close>

definition load_one :: "set_dir \<Rightarrow> set_acc \<Rightarrow> error + set_acc" where
  "load_one ii acc =
     bind (load_set ii) (\<lambda>(cells, coords, eners, forces, virs).
     bind (reshape_m1_3_3 cells) (\<lambda>cells3.
     let n = length cells3 in
     bind (reshape_n_m1_3 coords n) (\<lambda>coords3.
     bind (case eners of None \<Rightarrow> Inr None
           | Some e \<Rightarrow> bind (reshape_n e n) (\<lambda>e1. Inr (Some e1))) (\<lambda>eners1.
     let eners_out = (case eners1 of None \<Rightarrow> all_eners acc
                      | Some e \<Rightarrow> if length e > 0 then all_eners acc @ [e] else all_eners acc) in
     bind (case forces of None \<Rightarrow> Inr (all_forces acc)
           | Some f \<Rightarrow> if length f > 0
                       then bind (reshape_n_m1_3 f n) (\<lambda>f3. Inr (all_forces acc @ [f3]))
                       else Inr (all_forces acc)) (\<lambda>forces_out.
     bind (case virs of None \<Rightarrow> Inr (all_virs acc)
           | Some v \<Rightarrow> if length v > 0
                       then bind (reshape_n_3_3 v n) (\<lambda>v3. Inr (all_virs acc @ [v3]))
                       else Inr (all_virs acc)) (\<lambda>virs_out.
     Inr \<lparr>nframes = Some n, all_cells = all_cells acc @ [cells3],
          all_coords = all_coords acc @ [coords3], all_eners = eners_out,
          all_forces = forces_out, all_virs = virs_out\<rparr>))))))"

fun load_sets :: "set_dir list \<Rightarrow> set_acc \<Rightarrow> error + set_acc" where
  "load_sets [] acc = Inr acc"
| "load_sets (ii # rest) acc = bind (load_one ii acc) (load_sets rest)"

text \<open>
  The dictionary that \<open>to_system_data\<close> returns: the keys of \<open>load_type\<close> and its own.
  \<^verbatim>\<open>energies\<close>, \<^verbatim>\<open>forces\<close>, \<^verbatim>\<open>virials\<close> and \<^verbatim>\<open>nopbc\<close> are set only under a
  condition.
\<close>

record system_data = topology +
  orig :: "real list"
  docname :: string
  frames :: nat
  cells :: "real list list list"
  coords :: "real list list list"
  energies :: "real list option"
  forces :: "real list list list option"
  virials :: "real list list list option"
  nopbc :: "bool option"

text \<open>
  Line 121 reads \<^verbatim>\<open>nframes\<close> after the loop: it is the value of the last iteration,
  and the variable is unbound when there was no set.
\<close>

definition to_system_data :: "string \<Rightarrow> system_dir \<Rightarrow> error + system_data" where
  "to_system_data folder dir =
     bind (load_type (type_raw dir) (type_map_raw dir) None) (\<lambda>data.
     bind (load_sets (sets dir) empty_acc) (\<lambda>acc.
     bind (case nframes acc of None \<Rightarrow> Inl UnboundLocalError | Some n \<Rightarrow> Inr n) (\<lambda>n.
     bind (concatenate (all_cells acc)) (\<lambda>cs.
     bind (concatenate_frames (all_coords acc)) (\<lambda>xs.
     bind (if length (all_forces acc) > 0
           then bind (concatenate_frames (all_forces acc)) (\<lambda>fs. Inr (Some fs))
           else Inr None) (\<lambda>fs.
     bind (if length (all_virs acc) > 0
           then bind (concatenate (all_virs acc)) (\<lambda>vs. Inr (Some vs))
           else Inr None) (\<lambda>vs.
     Inr (topology.extend data
            (system_data.fields [0, 0, 0] folder n cs xs
               (if length (all_eners acc) > 0 then Some (concat (all_eners acc)) else None)
               fs vs (if nopbc_file dir then Some True else None))))))))))"

subsection \<open>\<^verbatim>\<open>read_multi_deepmd\<close>\<close>

text \<open>The entries of \<^verbatim>\<open>data_multi\<close>: a system's dictionary with the key \<^verbatim>\<open>has_virial\<close>.\<close>

record system_entry = system_data +
  has_virial :: "bool list"

text \<open>Lines 141 to 145.\<close>

definition add_has_virial :: "system_data \<Rightarrow> system_entry" where
  "add_has_virial idata =
     system_data.extend idata
       (system_entry.fields
          (if (case virials idata of None \<Rightarrow> False | Some vs \<Rightarrow> length vs = frames idata)
           then replicate (frames idata) True
           else replicate (frames idata) False))"

text \<open>
  An entry of the parent directory, as \<^verbatim>\<open>os.path.isdir\<close> sees it; the parent directory
  is the list of its named entries in the order of \<^verbatim>\<open>os.listdir\<close>.
\<close>

datatype dirent = RegularFile | Directory system_dir

text \<open>\<^verbatim>\<open>os.path.join\<close> of two components.\<close>

definition path_join :: "string \<Rightarrow> string \<Rightarrow> string" where
  "path_join a b =
     (if b \<noteq> [] \<and> hd b = CHR ''/'' then b
      else if a = [] \<or> last a = CHR ''/'' then a @ b
      else a @ ''/'' @ b)"

text \<open>
  The first loop, lines 137 to 147: \<^verbatim>\<open>data_multi\<close> is a dictionary that is read in the
  order of insertion, so it is the list of its items; \<open>i\<close> counts all entries.
\<close>

fun load_systems :: "string \<Rightarrow> nat \<Rightarrow> (string \<times> dirent) list \<Rightarrow> error + (nat \<times> system_entry) list" where
  "load_systems folder i [] = Inr []"
| "load_systems folder i ((fi, RegularFile) # rest) = load_systems folder (Suc i) rest"
| "load_systems folder i ((fi, Directory dir) # rest) =
     bind (to_system_data (path_join folder fi) dir) (\<lambda>idata.
     bind (load_systems folder (Suc i) rest) (\<lambda>data_multi.
     Inr ((i, add_has_virial idata) # data_multi)))"

text \<open>
  The merged dictionary \<^verbatim>\<open>data\<close>. \<^verbatim>\<open>atom_numbs\<close> and \<^verbatim>\<open>has_virial\<close> are float
  arrays in the source, which hold a length and 1.0 or 0.0; the model keeps the natural
  number and the truth value. \<^verbatim>\<open>atom_types\<close>, \<^verbatim>\<open>coords\<close> and \<^verbatim>\<open>forces\<close> are
  dictionaries from the frame index.
\<close>

record merged =
  nframe :: nat
  m_docname :: "string list"
  m_atom_numbs :: "nat list"
  m_has_virial :: "bool list"
  m_energies :: "real list"
  m_virials :: "real list list"
  m_cells :: "real list list"
  m_volume :: "real list"
  m_atom_types :: "nat \<rightharpoonup> int list"
  m_coords :: "nat \<rightharpoonup> real list list"
  m_forces :: "nat \<rightharpoonup> real list list"

text \<open>\<^verbatim>\<open>np.reshape(c, 9)\<close> of a two-axis array.\<close>

definition reshape_9 :: "real list list \<Rightarrow> error + real list" where
  "reshape_9 c = (let flat = concat c in if length flat = 9 then Inr flat else Inl ValueError)"

text \<open>
  Lines 176 and 177: the row of \<^verbatim>\<open>data['virials']\<close> is written for a frame with
  virial only.
\<close>

definition store_virial ::
  "system_entry \<Rightarrow> nat \<Rightarrow> bool \<Rightarrow> real list list \<Rightarrow> nat \<Rightarrow> error + real list list" where
  "store_virial s j hv virs k =
     (if hv
      then bind (get_key (virials s)) (\<lambda>vs.
           bind (get_at vs j) (\<lambda>v.
           bind (convervirial v) (\<lambda>v6.
           set_at virs k v6)))
      else Inr virs)"

text \<open>
  The body of the inner loop, lines 172 to 184, on the pair of \<^verbatim>\<open>ifr\<close> and
  \<^verbatim>\<open>data\<close>. The values that the source reads back from \<^verbatim>\<open>data\<close> right after it
  stored them (\<^verbatim>\<open>has_virial\<close>, \<^verbatim>\<open>cells\<close>) are the stored values.
\<close>

definition merge_frame :: "system_entry \<Rightarrow> nat \<Rightarrow> int \<times> merged \<Rightarrow> error + int \<times> merged" where
  "merge_frame s j st =
     (let ifr = fst st + 1; data = snd st; k = nat ifr in
      bind (set_at (m_atom_numbs data) k (length (atom_types s))) (\<lambda>numbs.
      bind (get_at (has_virial s) j) (\<lambda>hv.
      bind (set_at (m_has_virial data) k hv) (\<lambda>hvs.
      bind (get_key (energies s)) (\<lambda>ens.
      bind (get_at ens j) (\<lambda>e.
      bind (set_at (m_energies data) k e) (\<lambda>es.
      bind (store_virial s j hv (m_virials data) k) (\<lambda>virs.
      bind (get_at (cells s) j) (\<lambda>c.
      bind (reshape_9 c) (\<lambda>c9.
      bind (set_at (m_cells data) k c9) (\<lambda>cs.
      bind (vec2volume c9) (\<lambda>vol.
      bind (set_at (m_volume data) k vol) (\<lambda>vols.
      bind (get_at (coords s) j) (\<lambda>x.
      bind (get_key (forces s)) (\<lambda>fs.
      bind (get_at fs j) (\<lambda>f.
      bind (set_at (m_docname data) k (docname s)) (\<lambda>names.
      Inr (ifr,
           data\<lparr>m_docname := names, m_atom_numbs := numbs, m_has_virial := hvs,
                m_energies := es, m_virials := virs, m_cells := cs, m_volume := vols,
                m_atom_types := (m_atom_types data)(k \<mapsto> atom_types s),
                m_coords := (m_coords data)(k \<mapsto> x),
                m_forces := (m_forces data)(k \<mapsto> f)\<rparr>))))))))))))))))))"

text \<open>The inner loop over \<^verbatim>\<open>range(data_multi[i]['frames'])\<close>.\<close>

fun merge_frames :: "system_entry \<Rightarrow> nat list \<Rightarrow> int \<times> merged \<Rightarrow> error + int \<times> merged" where
  "merge_frames s [] st = Inr st"
| "merge_frames s (j # js) st = bind (merge_frame s j st) (merge_frames s js)"

text \<open>The outer loop over \<^verbatim>\<open>data_multi\<close>.\<close>

fun merge_systems :: "(nat \<times> system_entry) list \<Rightarrow> int \<times> merged \<Rightarrow> error + int \<times> merged" where
  "merge_systems [] st = Inr st"
| "merge_systems (is # rest) st =
     bind (merge_frames (snd is) [0..<frames (snd is)] st) (merge_systems rest)"

text \<open>Lines 151 to 162: the arrays of zeros and the empty dictionaries.\<close>

definition init_data :: "nat \<Rightarrow> merged" where
  "init_data n =
     \<lparr>nframe = n, m_docname = replicate n [], m_atom_numbs = replicate n 0,
      m_has_virial = replicate n False, m_energies = replicate n 0,
      m_virials = replicate n (replicate 6 0), m_cells = replicate n (replicate 9 0),
      m_volume = replicate n 0, m_atom_types = Map.empty, m_coords = Map.empty,
      m_forces = Map.empty\<rparr>"

text \<open>
  The scalar that \<^verbatim>\<open>np.sum\<close> returns for a list of frame counts: an integer for a
  list of integers, and the float 0.0 for the empty list (the array of no elements has
  the type float64).
\<close>

datatype np_scalar = NpInt nat | NpFloat real

definition np_sum :: "nat list \<Rightarrow> np_scalar" where
  "np_sum xs = (if xs = [] then NpFloat 0 else NpInt (sum_list xs))"

text \<open>\<^verbatim>\<open>range(n)\<close>: TypeError for a float, which cannot be read as an integer.\<close>

definition py_range :: "np_scalar \<Rightarrow> error + nat list" where
  "py_range n = (case n of NpInt k \<Rightarrow> Inr [0..<k] | NpFloat x \<Rightarrow> Inl TypeError)"

text \<open>
  Lines 149 to 186. The first use of \<^verbatim>\<open>nframes\<close> is \<^verbatim>\<open>range(nframes)\<close> in line 153;
  when it returns, \<^verbatim>\<open>nframes\<close> is an integer, the length of that range.
\<close>

definition read_multi_deepmd :: "string \<Rightarrow> (string \<times> dirent) list \<Rightarrow> error + merged" where
  "read_multi_deepmd folder entries =
     bind (load_systems folder 0 entries) (\<lambda>data_multi.
     let nframes = np_sum (map (\<lambda>is. frames (snd is)) data_multi) in
     bind (py_range nframes) (\<lambda>r.
     bind (merge_systems data_multi (- 1, init_data (length r))) (\<lambda>st. Inr (snd st))))"

subsection \<open>\<^verbatim>\<open>dump\<close>\<close>

text \<open>
  The text of a float64 (\<^verbatim>\<open>str\<close> of a numpy float) is a parameter \<open>fstr\<close> of the
  serializer. The result of \<open>dump\<close> is the text written to \<^verbatim>\<open>train.in\<close>.
\<close>

definition nl :: string where
  "nl = [CHR 0x0A]"

text \<open>The header: lines 210 to 212, for the frames \<open>is\<close>.\<close>

definition header_line :: "merged \<Rightarrow> nat \<Rightarrow> error + string" where
  "header_line data i =
     bind (get_at (m_atom_numbs data) i) (\<lambda>n.
     bind (get_at (m_has_virial data) i) (\<lambda>hv.
     Inr (str_nat n @ '' '' @ str_nat (if hv then 1 else 0) @ nl)))"

fun header_lines :: "merged \<Rightarrow> nat list \<Rightarrow> error + string" where
  "header_lines data [] = Inr []"
| "header_lines data (i # is) =
     bind (header_line data i) (\<lambda>l.
     bind (header_lines data is) (\<lambda>rest. Inr (l @ rest)))"

text \<open>The energy line of frame \<open>i\<close>: lines 217 to 221.\<close>

definition energy_line :: "(real \<Rightarrow> string) \<Rightarrow> merged \<Rightarrow> nat \<Rightarrow> error + string" where
  "energy_line fstr data i =
     bind (get_at (m_has_virial data) i) (\<lambda>hv.
     if hv
     then bind (get_at (m_energies data) i) (\<lambda>e.
          bind (get_at (m_virials data) i) (\<lambda>v.
          Inr (fstr e @ '' '' @ join '' '' (map fstr v) @ nl)))
     else bind (get_at (m_energies data) i) (\<lambda>e. Inr (fstr e @ nl)))"

text \<open>The line of atom \<open>j\<close> of frame \<open>i\<close>: lines 224 to 226.\<close>

definition atom_line :: "(real \<Rightarrow> string) \<Rightarrow> merged \<Rightarrow> nat \<Rightarrow> nat \<Rightarrow> error + string" where
  "atom_line fstr data i j =
     bind (get_key (m_atom_types data i)) (\<lambda>ts.
     bind (get_at ts j) (\<lambda>t.
     bind (get_key (m_coords data i)) (\<lambda>xs.
     bind (get_at xs j) (\<lambda>x.
     bind (get_key (m_forces data i)) (\<lambda>fs.
     bind (get_at fs j) (\<lambda>f.
     Inr (str_int (t + 1) @ '' '' @ join '' '' (map fstr x) @ '' ''
          @ join '' '' (map fstr f) @ nl)))))))"

fun atom_lines :: "(real \<Rightarrow> string) \<Rightarrow> merged \<Rightarrow> nat \<Rightarrow> nat list \<Rightarrow> error + string" where
  "atom_lines fstr data i [] = Inr []"
| "atom_lines fstr data i (j # js) =
     bind (atom_line fstr data i j) (\<lambda>l.
     bind (atom_lines fstr data i js) (\<lambda>rest. Inr (l @ rest)))"

text \<open>The record of frame \<open>i\<close>: lines 216 to 226.\<close>

definition frame_record :: "(real \<Rightarrow> string) \<Rightarrow> merged \<Rightarrow> nat \<Rightarrow> error + string" where
  "frame_record fstr data i =
     bind (energy_line fstr data i) (\<lambda>l1.
     bind (get_at (m_cells data) i) (\<lambda>c.
     bind (get_at (m_atom_numbs data) i) (\<lambda>n.
     bind (atom_lines fstr data i [0..<n]) (\<lambda>ls.
     Inr (l1 @ join '' '' (map fstr c) @ nl @ ls)))))"

fun frame_records :: "(real \<Rightarrow> string) \<Rightarrow> merged \<Rightarrow> nat list \<Rightarrow> error + string" where
  "frame_records fstr data [] = Inr []"
| "frame_records fstr data (i # is) =
     bind (frame_record fstr data i) (\<lambda>r.
     bind (frame_records fstr data is) (\<lambda>rest. Inr (r @ rest)))"

definition dump :: "(real \<Rightarrow> string) \<Rightarrow> merged \<Rightarrow> error + string" where
  "dump fstr data =
     bind (header_lines data [0..<nframe data]) (\<lambda>h.
     bind (frame_records fstr data [0..<nframe data]) (\<lambda>b.
     Inr (str_nat (nframe data) @ nl @ h @ b)))"

definition main :: "(real \<Rightarrow> string) \<Rightarrow> string \<Rightarrow> (string \<times> dirent) list \<Rightarrow> error + string" where
  "main fstr instr entries =
     bind (read_multi_deepmd (''./'' @ instr) entries) (\<lambda>data. dump fstr data)"

subsection \<open>Reading the header back\<close>

text \<open>
  A reader of the header block of \<^verbatim>\<open>train.in\<close>, as the specification describes the
  layout: the first line is the number of frames, and each of the next lines holds an
  atom count and a flag 0 or 1, separated by a space. It is the reader that the
  round trip of the header is stated with.
\<close>

definition digit_val :: "char \<Rightarrow> nat option" where
  "digit_val c = (let n = of_char c in if 48 \<le> n \<and> n \<le> (57::nat) then Some (n - 48) else None)"

fun parse_digits :: "nat \<Rightarrow> string \<Rightarrow> nat option" where
  "parse_digits acc [] = Some acc"
| "parse_digits acc (c # cs) =
     (case digit_val c of None \<Rightarrow> None | Some d \<Rightarrow> parse_digits (10 * acc + d) cs)"

definition parse_nat :: "string \<Rightarrow> nat option" where
  "parse_nat s = (if s = [] then None else parse_digits 0 s)"

definition read_line :: "string \<Rightarrow> string \<times> string" where
  "read_line s = (takeWhile (\<lambda>c. c \<noteq> CHR 0x0A) s, drop 1 (dropWhile (\<lambda>c. c \<noteq> CHR 0x0A) s))"

definition parse_pair :: "string \<Rightarrow> (nat \<times> bool) option" where
  "parse_pair l =
     (let a = takeWhile (\<lambda>c. c \<noteq> CHR '' '') l; b = drop 1 (dropWhile (\<lambda>c. c \<noteq> CHR '' '') l)
      in case parse_nat a of
           None \<Rightarrow> None
         | Some n \<Rightarrow> if b = ''1'' then Some (n, True)
                     else if b = ''0'' then Some (n, False) else None)"

fun parse_pairs :: "nat \<Rightarrow> string \<Rightarrow> (nat \<times> bool) list option" where
  "parse_pairs 0 s = Some []"
| "parse_pairs (Suc n) s =
     (case parse_pair (fst (read_line s)) of
        None \<Rightarrow> None
      | Some p \<Rightarrow>
          (case parse_pairs n (snd (read_line s)) of
             None \<Rightarrow> None
           | Some ps \<Rightarrow> Some (p # ps)))"

definition parse_header :: "string \<Rightarrow> (nat \<times> bool) list option" where
  "parse_header s =
     (case parse_nat (fst (read_line s)) of
        None \<Rightarrow> None
      | Some n \<Rightarrow> parse_pairs n (snd (read_line s)))"

text \<open>
  The first field of a line whose fields are separated by spaces, and a reader of the
  decimal text of an integer: the type index of an atom line is read with them.
\<close>

definition first_field :: "string \<Rightarrow> string" where
  "first_field l = takeWhile (\<lambda>c. c \<noteq> CHR '' '') l"

definition parse_int :: "string \<Rightarrow> int option" where
  "parse_int s =
     (case s of
        [] \<Rightarrow> None
      | c # cs \<Rightarrow> if c = CHR ''-'' then map_option (\<lambda>n. - int n) (parse_nat cs)
                  else map_option int (parse_nat s))"

subsection \<open>The frames in the order of the merge\<close>

text \<open>
  The pairs of a system and a local frame number in the order in which the two nested
  loops of \<open>read_multi_deepmd\<close> visit them: the frame with the global index \<open>g\<close> is the
  \<open>g\<close>-th pair.
\<close>

definition frame_list :: "(nat \<times> system_entry) list \<Rightarrow> (system_entry \<times> nat) list" where
  "frame_list data_multi =
     concat (map (\<lambda>is. map (\<lambda>j. (snd is, j)) [0..<frames (snd is)]) data_multi)"

text \<open>The same loop body over a list of such pairs.\<close>

fun merge_list :: "(system_entry \<times> nat) list \<Rightarrow> int \<times> merged \<Rightarrow> error + int \<times> merged" where
  "merge_list [] st = Inr st"
| "merge_list (p # ps) st = bind (merge_frame (fst p) (snd p) st) (merge_list ps)"

text \<open>All arrays of the merged dictionary have one entry for each frame.\<close>

definition wf_merged :: "merged \<Rightarrow> bool" where
  "wf_merged d \<longleftrightarrow>
     length (m_docname d) = nframe d \<and> length (m_atom_numbs d) = nframe d
     \<and> length (m_has_virial d) = nframe d \<and> length (m_energies d) = nframe d
     \<and> length (m_virials d) = nframe d \<and> length (m_cells d) = nframe d
     \<and> length (m_volume d) = nframe d"

text \<open>
  What the loop body stores at the global index \<open>k\<close> for frame \<open>j\<close> of the system
  \<open>s\<close>, when \<open>old\<close> was the row of \<^verbatim>\<open>data['virials']\<close> before.
\<close>

definition stored :: "system_entry \<Rightarrow> nat \<Rightarrow> real list \<Rightarrow> merged \<Rightarrow> nat \<Rightarrow> bool" where
  "stored s j old d k \<longleftrightarrow>
     m_docname d ! k = docname s
     \<and> m_atom_numbs d ! k = length (atom_types s)
     \<and> j < length (has_virial s) \<and> m_has_virial d ! k = has_virial s ! j
     \<and> (\<exists>ens. energies s = Some ens \<and> j < length ens \<and> m_energies d ! k = ens ! j)
     \<and> (if has_virial s ! j
        then \<exists>vs. virials s = Some vs \<and> j < length vs
                  \<and> convervirial (vs ! j) = Inr (m_virials d ! k)
        else m_virials d ! k = old)
     \<and> j < length (cells s) \<and> reshape_9 (cells s ! j) = Inr (m_cells d ! k)
     \<and> (\<exists>vol. vec2volume (m_cells d ! k) = Inr vol)
     \<and> m_atom_types d k = Some (atom_types s)
     \<and> j < length (coords s) \<and> m_coords d k = Some (coords s ! j)
     \<and> (\<exists>fs. forces s = Some fs \<and> j < length fs \<and> m_forces d k = Some (fs ! j))"

text \<open>Two merged dictionaries agree on the frame \<open>k\<close>.\<close>

definition same_frame :: "merged \<Rightarrow> merged \<Rightarrow> nat \<Rightarrow> bool" where
  "same_frame d d' k \<longleftrightarrow>
     m_docname d' ! k = m_docname d ! k \<and> m_atom_numbs d' ! k = m_atom_numbs d ! k
     \<and> m_has_virial d' ! k = m_has_virial d ! k \<and> m_energies d' ! k = m_energies d ! k
     \<and> m_virials d' ! k = m_virials d ! k \<and> m_cells d' ! k = m_cells d ! k
     \<and> m_volume d' ! k = m_volume d ! k \<and> m_atom_types d' k = m_atom_types d k
     \<and> m_coords d' k = m_coords d k \<and> m_forces d' k = m_forces d k"

text \<open>An array of three rows of three components.\<close>

definition is_3x3 :: "real list list \<Rightarrow> bool" where
  "is_3x3 m \<longleftrightarrow> length m = 3 \<and> list_all (\<lambda>row. length row = 3) m"

text \<open>
  The shape of an entry of \<^verbatim>\<open>data_multi\<close>: what \<open>to_system_data\<close> and the lines 141
  to 145 establish about the arrays of a system, whatever its files hold.
\<close>

definition well_shaped :: "system_entry \<Rightarrow> bool" where
  "well_shaped s \<longleftrightarrow>
     0 < frames s \<and> frames s \<le> length (cells s) \<and> list_all is_3x3 (cells s)
     \<and> frames s \<le> length (coords s)
     \<and> (case energies s of None \<Rightarrow> True | Some ens \<Rightarrow> ens \<noteq> [])
     \<and> (case forces s of None \<Rightarrow> True | Some fs \<Rightarrow> fs \<noteq> [])
     \<and> (case virials s of None \<Rightarrow> True | Some vs \<Rightarrow> list_all is_3x3 vs)
     \<and> has_virial s =
         replicate (frames s)
           (case virials s of None \<Rightarrow> False | Some vs \<Rightarrow> length vs = frames s)"

text \<open>
  A system carries an energy sequence and a force sequence that cover the frames the
  merge takes from it.
\<close>

definition covered :: "system_entry \<Rightarrow> bool" where
  "covered s \<longleftrightarrow>
     (case energies s of None \<Rightarrow> False | Some ens \<Rightarrow> frames s \<le> length ens)
     \<and> (case forces s of None \<Rightarrow> False | Some fs \<Rightarrow> frames s \<le> length fs)"

text \<open>The same for the one frame \<open>j\<close>: both sequences exist and have an entry \<open>j\<close>.\<close>

definition frame_covered :: "system_entry \<Rightarrow> nat \<Rightarrow> bool" where
  "frame_covered s j \<longleftrightarrow>
     (case energies s of None \<Rightarrow> False | Some ens \<Rightarrow> j < length ens)
     \<and> (case forces s of None \<Rightarrow> False | Some fs \<Rightarrow> j < length fs)"

subsection \<open>The documented errors\<close>

text \<open>
  The error kinds that the specification defines in its error taxonomy: a mandatory file
  is missing (FileNotFoundError), an array does not fit the shape it is given
  (ValueError), there are fewer type names than types (AssertionError). Its fourth kind,
  a malformed numeric file, is outside the model. The source file itself documents no
  error.
\<close>

definition documented_error :: "error \<Rightarrow> bool" where
  "documented_error e \<longleftrightarrow> e = FileNotFoundError \<or> e = ValueError \<or> e = AssertionError"

subsection \<open>Example directories\<close>

text \<open>The text of a \<^verbatim>\<open>type_map.raw\<close>: two names with a no-break space between.\<close>

definition ex_type_map :: ustring where
  "ex_type_map = ustr ''H'' @ [0x00A0] @ ustr ''O''"

text \<open>
  Two atoms of the types 0 and 1. \<open>ex_set_a\<close> holds two frames with virials,
  \<open>ex_set_b\<close> one frame without.
\<close>

definition ex_set_a :: set_dir where
  "ex_set_a =
     \<lparr>box_npy = Some [1, 0, 0, 0, 1, 0, 0, 0, 1, 2, 0, 0, 0, 2, 0, 0, 0, 2],
      coord_npy = Some [0, 0, 0, 1, 1, 1, 0, 0, 0, 1, 1, 1],
      energy_npy = Some [5, 6],
      force_npy = Some [0, 0, 1, 0, 0, 1, 0, 1, 0, 0, 1, 0],
      virial_npy = Some [1, 2, 3, 4, 5, 6, 7, 8, 9, 1, 2, 3, 4, 5, 6, 7, 8, 9]\<rparr>"

definition ex_set_b :: set_dir where
  "ex_set_b =
     \<lparr>box_npy = Some [3, 0, 0, 0, 3, 0, 0, 0, 3],
      coord_npy = Some [2, 2, 2, 3, 3, 3],
      energy_npy = Some [7],
      force_npy = Some [1, 0, 0, 1, 0, 0],
      virial_npy = None\<rparr>"

definition ex_system :: "set_dir list \<Rightarrow> system_dir" where
  "ex_system ss = \<lparr>type_raw = Some [0, 1], type_map_raw = None, nopbc_file = False, sets = ss\<rparr>"

text \<open>A parent directory with a system with virials, a plain file and a system without.\<close>

definition ex_parent :: "(string \<times> dirent) list" where
  "ex_parent =
     [(''a'', Directory (ex_system [ex_set_a])), (''notes'', RegularFile),
      (''b'', Directory (ex_system [ex_set_b]))]"

text \<open>A parent directory with one system of two sets (three frames in all).\<close>

definition ex_two_sets :: "(string \<times> dirent) list" where
  "ex_two_sets = [(''a'', Directory (ex_system [ex_set_a, ex_set_b]))]"

text \<open>
  Two parent directories with one system of two sets and three frames: in the first the
  set of one frame has no virial and comes first, in the second every set has virials
  (\<open>ex_set_c\<close> is \<open>ex_set_b\<close> with a virial).
\<close>

definition ex_set_c :: set_dir where
  "ex_set_c = ex_set_b\<lparr>virial_npy := Some [9, 8, 7, 6, 5, 4, 3, 2, 1]\<rparr>"

definition ex_partial_virial :: "(string \<times> dirent) list" where
  "ex_partial_virial = [(''a'', Directory (ex_system [ex_set_b, ex_set_a]))]"

definition ex_full_virial :: "(string \<times> dirent) list" where
  "ex_full_virial = [(''a'', Directory (ex_system [ex_set_a, ex_set_c]))]"

text \<open>A system whose only set has no \<^verbatim>\<open>energy.npy\<close>.\<close>

definition ex_no_energy :: "(string \<times> dirent) list" where
  "ex_no_energy = [(''a'', Directory (ex_system [ex_set_b\<lparr>energy_npy := None\<rparr>]))]"

text \<open>
  A parent directory whose first system has one energy for its two merged frames (its
  second set has no \<^verbatim>\<open>energy.npy\<close>) and whose second system has no \<^verbatim>\<open>force.npy\<close>;
  and one whose first system is complete and whose second has no \<^verbatim>\<open>force.npy\<close>.
\<close>

definition ex_short_energy :: "(string \<times> dirent) list" where
  "ex_short_energy =
     [(''a'', Directory (ex_system [ex_set_b, ex_set_a\<lparr>energy_npy := None\<rparr>])),
      (''b'', Directory (ex_system [ex_set_b\<lparr>force_npy := None\<rparr>]))]"

definition ex_later_no_force :: "(string \<times> dirent) list" where
  "ex_later_no_force =
     [(''a'', Directory (ex_system [ex_set_a])),
      (''b'', Directory (ex_system [ex_set_b\<lparr>force_npy := None\<rparr>]))]"

text \<open>A rendering of floats for the examples: the integer part of whole numbers.\<close>

definition ex_fstr :: "real \<Rightarrow> string" where
  "ex_fstr x = str_int (floor x)"

section \<open>Basic facts\<close>

lemma bind_Inr [simp]: "bind (Inr x) f = f x"
  by (simp add: bind_def)

lemma bind_Inl [simp]: "bind (Inl e) f = Inl e"
  by (simp add: bind_def)

lemma bind_eq_Inr_iff: "bind m f = Inr y \<longleftrightarrow> (\<exists>x. m = Inr x \<and> f x = Inr y)"
  by (cases m) simp_all

lemma get_at_eq_Inr_iff: "get_at xs i = Inr v \<longleftrightarrow> i < length xs \<and> v = xs ! i"
  by (auto simp: get_at_def)

lemma set_at_eq_Inr_iff: "set_at xs i v = Inr ys \<longleftrightarrow> i < length xs \<and> ys = xs[i := v]"
  by (auto simp: set_at_def)

lemma get_key_eq_Inr_iff: "get_key v = Inr x \<longleftrightarrow> v = Some x"
  by (cases v) (simp_all add: get_key_def)

lemma bindE:
  assumes "bind m f = Inr y"
  obtains x where "m = Inr x" and "f x = Inr y"
  using assms by (auto simp: bind_eq_Inr_iff)

section \<open>The virial reduction\<close>

text \<open>
  C2. For every 3x3 virial matrix \<open>M\<close> (three rows of three components),
  \<open>convervirial\<close> returns \<open>[M[0,0], M[1,1], M[2,2], M[0,1], M[1,2], M[0,2]]\<close>: the order
  xx, yy, zz, xy, yz, zx, the off-diagonal components coming from the upper triangle.
\<close>

theorem convervirial_voigt:
  assumes "length M = 3" and "\<forall>row \<in> set M. length row = 3"
  shows "convervirial M =
           Inr [M ! 0 ! 0, M ! 1 ! 1, M ! 2 ! 2, M ! 0 ! 1, M ! 1 ! 2, M ! 0 ! 2]"
proof -
  have rows: "length (M ! i) = 3" if "i < 3" for i
    using assms that by simp
  have "idx2 M i j = Inr (M ! i ! j)" if "i < 3" and "j < 3" for i j
    using assms(1) rows [OF that(1)] that by (simp add: idx2_def get_at_def)
  then show ?thesis
    by (simp add: convervirial_def)
qed

theorem convervirial_voigt_witness:
  "length [[1, 2, 3], [4, 5, 6], [7, 8, 9 :: real]] = 3
   \<and> convervirial [[1, 2, 3], [4, 5, 6], [7, 8, 9]] = Inr [1, 5, 9, 2, 6, 3]"
  using convervirial_voigt [of "[[1, 2, 3], [4, 5, 6], [7, 8, 9]]"] by simp

section \<open>The type loader\<close>

text \<open>
  C6 (amended). Without \<^verbatim>\<open>type.raw\<close>, and with a \<^verbatim>\<open>type.raw\<close> that lists no atom,
  \<open>load_type\<close> fails whatever the names are. For a \<^verbatim>\<open>type.raw\<close> that lists at least
  one atom, it resolves the names from the tokens of \<^verbatim>\<open>type_map.raw\<close> when that file
  exists, else from the list the caller gave, else as \<open>Type_0\<close>, \<open>Type_1\<close>, ..., one for
  each entry of \<open>atom_numbs\<close>; it then fails exactly when the resolved list is shorter than
  \<open>atom_numbs\<close> (with AssertionError), and otherwise \<open>atom_names[t]\<close> is the \<open>t\<close>-th
  resolved name for every \<open>t < len(atom_numbs)\<close>.
\<close>

theorem load_type_resolves_names:
  fixes types :: "int list"
  shows "load_type None map_file map_arg = Inl FileNotFoundError
   \<and> load_type (Some []) map_file map_arg = Inl ValueError
   \<and> (types \<noteq> [] \<longrightarrow>
       (\<exists>names numbs.
          names = (case map_file of Some text \<Rightarrow> split_ws text
                   | None \<Rightarrow> (case map_arg of Some given \<Rightarrow> given
                       | None \<Rightarrow> map (\<lambda>t. ustr (''Type_'' @ str_int t)) [0..Max (set types)]))
        \<and> numbs = map (count_list types) [0..Max (set types)]
        \<and> (map_file = None \<and> map_arg = None \<longrightarrow> length names = length numbs)
        \<and> ((\<exists>e. load_type (Some types) map_file map_arg = Inl e)
              \<longleftrightarrow> length names < length numbs)
        \<and> (length names < length numbs \<longrightarrow>
             load_type (Some types) map_file map_arg = Inl AssertionError)
        \<and> (length numbs \<le> length names \<longrightarrow>
             (\<exists>d. load_type (Some types) map_file map_arg = Inr d \<and> atom_types d = types
                  \<and> atom_numbs d = numbs \<and> length (atom_names d) = length numbs
                  \<and> (\<forall>t < length numbs. atom_names d ! t = names ! t)))))"
  by (auto simp: load_type_def my_type_map_def Let_def split: option.splits)

theorem load_type_resolves_names_witness:
  "(\<exists>d. load_type (Some [0, 1, 1]) None None = Inr d \<and> atom_numbs d = [1, 2]
        \<and> length (atom_names d) = 2 \<and> atom_names d ! 0 = ustr ''Type_0''
        \<and> atom_names d ! 1 = ustr ''Type_1'')
   \<and> (\<exists>d. load_type (Some [1, 0]) (Some ex_type_map) None = Inr d
        \<and> atom_numbs d = [1, 1] \<and> length (atom_names d) = 2
        \<and> atom_names d ! 0 = ustr ''H'' \<and> atom_names d ! 1 = ustr ''O'')
   \<and> load_type (Some [0, 1]) (Some (ustr ''H'')) None = Inl AssertionError"
proof -
  have e1: "map (\<lambda>t. ustr (''Type_'' @ str_int t)) [0..Max (set [0, 1, 1])]
              = [ustr ''Type_0'', ustr ''Type_1'']"
    by code_simp
  have e2: "map (count_list [0, 1, 1 :: int]) [0..Max (set [0, 1, 1])] = [1, 2]"
    by code_simp
  have a: "\<exists>d. load_type (Some [0, 1, 1]) None None = Inr d \<and> atom_numbs d = [1, 2]
        \<and> length (atom_names d) = 2 \<and> atom_names d ! 0 = ustr ''Type_0''
        \<and> atom_names d ! 1 = ustr ''Type_1''"
    using load_type_resolves_names [of None None "[0, 1, 1]"]
    unfolding e1 e2 by auto
  have e3: "split_ws ex_type_map = [ustr ''H'', ustr ''O'']"
    by (simp add: split_ws_def ex_type_map_def ustr_def is_space_def)
  have e4: "map (count_list [1, 0 :: int]) [0..1] = [1, 1]"
    by code_simp
  have b: "\<exists>d. load_type (Some [1, 0]) (Some ex_type_map) None = Inr d
        \<and> atom_numbs d = [1, 1] \<and> length (atom_names d) = 2
        \<and> atom_names d ! 0 = ustr ''H'' \<and> atom_names d ! 1 = ustr ''O''"
    using load_type_resolves_names [of "Some ex_type_map" None "[1, 0]"]
    by (auto simp: e3 e4)
  have e5: "split_ws (ustr ''H'') = [ustr ''H'']"
    by (simp add: split_ws_def ustr_def is_space_def)
  have e6: "map (count_list [0, 1 :: int]) [0..1] = [1, 1]"
    by code_simp
  have c: "load_type (Some [0, 1]) (Some (ustr ''H'')) None = Inl AssertionError"
    using load_type_resolves_names [of "Some (ustr ''H'')" None "[0, 1]"]
    by (auto simp: e5 e6)
  from a b c show ?thesis by blast
qed

text \<open>
  C6 as stated fails: with a \<^verbatim>\<open>type.raw\<close> that lists no atom, or without the file,
  \<open>load_type\<close> fails although the resolved name list (here the one token of
  \<^verbatim>\<open>type_map.raw\<close>) is not shorter than any list of type counts.
\<close>

theorem load_type_fails_without_atoms:
  "load_type (Some []) (Some (ustr ''H'')) None = Inl ValueError
   \<and> split_ws (ustr ''H'') = [ustr ''H'']
   \<and> load_type None (Some (ustr ''H'')) None = Inl FileNotFoundError"
  by (simp add: load_type_def split_ws_def ustr_def is_space_def)

section \<open>The systems of a parent directory\<close>

lemma add_has_virial_simps [simp]:
  "has_virial (add_has_virial d) =
     replicate (frames d) (case virials d of None \<Rightarrow> False | Some vs \<Rightarrow> length vs = frames d)"
  "frames (add_has_virial d) = frames d"
  "virials (add_has_virial d) = virials d"
  "energies (add_has_virial d) = energies d"
  "forces (add_has_virial d) = forces d"
  "cells (add_has_virial d) = cells d"
  "coords (add_has_virial d) = coords d"
  "atom_types (add_has_virial d) = atom_types d"
  "docname (add_has_virial d) = docname d"
  by (simp_all add: add_has_virial_def system_data.extend_def system_entry.fields_def
      system_data.defs topology.defs)

lemma load_systems_entries:
  assumes "load_systems folder i entries = Inr dm" and "is \<in> set dm"
  shows "\<exists>fi dir idata. (fi, Directory dir) \<in> set entries
           \<and> to_system_data (path_join folder fi) dir = Inr idata
           \<and> snd is = add_has_virial idata"
  using assms
proof (induction folder i entries arbitrary: dm rule: load_systems.induct)
  case (1 folder i)
  then show ?case by simp
next
  case (2 folder i fi rest)
  then show ?case by fastforce
next
  case (3 folder i fi dir rest)
  from "3.prems"(1) obtain idata dm' where
    a: "to_system_data (path_join folder fi) dir = Inr idata"
    and b: "load_systems folder (Suc i) rest = Inr dm'"
    and c: "dm = (i, add_has_virial idata) # dm'"
    by (auto simp: bind_eq_Inr_iff)
  show ?case
  proof (cases "is = (i, add_has_virial idata)")
    case True
    with a show ?thesis by auto
  next
    case False
    with c "3.prems"(2) have "is \<in> set dm'" by simp
    from "3.IH" [OF b this] show ?thesis by auto
  qed
qed

lemma load_systems_no_directory:
  assumes "\<forall>e \<in> set entries. snd e = RegularFile"
  shows "load_systems folder i entries = Inr []"
  using assms by (induction folder i entries rule: load_systems.induct) auto

text \<open>
  C3 does not hold of the code. The flag sequence is compared with, and has the length
  of, the key \<^verbatim>\<open>frames\<close>, which is the frame count of the last set (see C1) and not
  the frame count of the system. The system of \<open>ex_partial_virial\<close> has 3 frames and 2
  virials, and its flags are two times true; the system of \<open>ex_full_virial\<close> has 3
  frames and 3 virials, and its flags are one time false. Each line gives the number of
  concatenated frames, the number of concatenated virials, the key \<^verbatim>\<open>frames\<close> and the
  flags of the one system in \<^verbatim>\<open>data_multi\<close>.
\<close>

theorem has_virial_against_last_set:
  "map_sum id
     (map (\<lambda>is. (length (cells (snd is)), map_option length (virials (snd is)),
                  frames (snd is), has_virial (snd is))))
     (load_systems ''./deepmd'' 0 ex_partial_virial) = Inr [(3, Some 2, 2, [True, True])]
   \<and> map_sum id
     (map (\<lambda>is. (length (cells (snd is)), map_option length (virials (snd is)),
                  frames (snd is), has_virial (snd is))))
     (load_systems ''./deepmd'' 0 ex_full_virial) = Inr [(3, Some 3, 1, [False])]"
  by code_simp

text \<open>
  C9 (amended). For a parent directory without any system subdirectory (no entry, or
  plain files only) the program raises an error before anything is written: the
  TypeError of \<^verbatim>\<open>range\<close> applied to the float sum of no frame counts. It does not
  produce an empty or malformed file.
\<close>

theorem empty_parent_raises:
  assumes "\<forall>e \<in> set entries. snd e = RegularFile"
  shows "read_multi_deepmd folder entries = Inl TypeError
         \<and> main fstr instr entries = Inl TypeError"
  by (simp add: read_multi_deepmd_def main_def np_sum_def py_range_def
      load_systems_no_directory [OF assms])

theorem empty_parent_raises_witness:
  "read_multi_deepmd ''./deepmd'' [] = Inl TypeError
   \<and> main ex_fstr ''deepmd'' [] = Inl TypeError
   \<and> main ex_fstr ''deepmd'' [(''notes'', RegularFile)] = Inl TypeError"
  using empty_parent_raises [of "[]" "''./deepmd''" ex_fstr "''deepmd''"]
    empty_parent_raises [of "[(''notes'', RegularFile)]" "''./deepmd''" ex_fstr "''deepmd''"]
  by simp

text \<open>
  C9 as stated fails: the error of the empty parent directory is not one of the defined,
  documented error kinds; no guard of the program raises it.
\<close>

theorem empty_parent_error_not_documented:
  "main ex_fstr ''deepmd'' [] = Inl TypeError \<and> \<not> documented_error TypeError"
  by (simp add: main_def read_multi_deepmd_def np_sum_def py_range_def documented_error_def)

section \<open>The frame count\<close>

text \<open>
  C1 does not hold of the code. The system of \<open>ex_two_sets\<close> has a set of two frames and
  a set of one frame. \<open>to_system_data\<close> concatenates the three frames, but its key
  \<^verbatim>\<open>frames\<close> is the frame count of the last set, so the merged collection has one frame.
\<close>

theorem frames_of_last_set_only:
  "map_sum id (\<lambda>s. (frames s, length (cells s), length (coords s)))
     (to_system_data ''./deepmd/a'' (ex_system [ex_set_a, ex_set_b])) = Inr (1, 3, 3)
   \<and> map_sum id nframe (read_multi_deepmd ''./deepmd'' ex_two_sets) = Inr 1"
  by code_simp

section \<open>The merge loop\<close>

lemma store_virial_Inr:
  assumes "store_virial s j hv virs k = Inr virs'"
  shows "length virs' = length virs"
    and "\<And>k'. k' \<noteq> k \<Longrightarrow> virs' ! k' = virs ! k'"
    and "\<not> hv \<Longrightarrow> virs' = virs"
    and "hv \<Longrightarrow> \<exists>vs. virials s = Some vs \<and> j < length vs \<and> k < length virs
                      \<and> convervirial (vs ! j) = Inr (virs' ! k)"
  using assms
  by (auto simp: store_virial_def bind_eq_Inr_iff set_at_eq_Inr_iff get_at_eq_Inr_iff
      get_key_eq_Inr_iff split: if_splits)

lemma merge_frame_Inr_raw:
  assumes "merge_frame s j (ifr, d) = Inr (ifr', d')"
  shows "\<exists>ens fs c9 vol virs.
      nat (ifr + 1) < length (m_atom_numbs d) \<and> nat (ifr + 1) < length (m_has_virial d)
    \<and> nat (ifr + 1) < length (m_energies d) \<and> nat (ifr + 1) < length (m_cells d)
    \<and> nat (ifr + 1) < length (m_volume d) \<and> nat (ifr + 1) < length (m_docname d)
    \<and> j < length (has_virial s)
    \<and> energies s = Some ens \<and> j < length ens
    \<and> store_virial s j (has_virial s ! j) (m_virials d) (nat (ifr + 1)) = Inr virs
    \<and> j < length (cells s) \<and> reshape_9 (cells s ! j) = Inr c9 \<and> vec2volume c9 = Inr vol
    \<and> j < length (coords s)
    \<and> forces s = Some fs \<and> j < length fs
    \<and> ifr' = ifr + 1
    \<and> d' = d\<lparr>m_docname := (m_docname d)[nat (ifr + 1) := docname s],
              m_atom_numbs := (m_atom_numbs d)[nat (ifr + 1) := length (atom_types s)],
              m_has_virial := (m_has_virial d)[nat (ifr + 1) := has_virial s ! j],
              m_energies := (m_energies d)[nat (ifr + 1) := ens ! j], m_virials := virs,
              m_cells := (m_cells d)[nat (ifr + 1) := c9],
              m_volume := (m_volume d)[nat (ifr + 1) := vol],
              m_atom_types := (m_atom_types d)(nat (ifr + 1) \<mapsto> atom_types s),
              m_coords := (m_coords d)(nat (ifr + 1) \<mapsto> coords s ! j),
              m_forces := (m_forces d)(nat (ifr + 1) \<mapsto> fs ! j)\<rparr>"
  using assms unfolding merge_frame_def Let_def fst_conv snd_conv
  apply (elim bindE)
  apply (simp only: set_at_eq_Inr_iff get_at_eq_Inr_iff get_key_eq_Inr_iff sum.inject prod.inject)
  apply (elim conjE)
  apply hypsubst
  apply (simp (no_asm_simp))
  done

lemma merge_frame_Inr:
  assumes "merge_frame s j (ifr, d) = Inr (ifr', d')" and "wf_merged d"
  shows "ifr' = ifr + 1"
    and "nat (ifr + 1) < nframe d"
    and "wf_merged d'"
    and "nframe d' = nframe d"
    and "stored s j (m_virials d ! nat (ifr + 1)) d' (nat (ifr + 1))"
    and "\<And>k'. k' \<noteq> nat (ifr + 1) \<Longrightarrow> same_frame d d' k'"
proof -
  let ?k = "nat (ifr + 1)"
  from merge_frame_Inr_raw [OF assms(1)] obtain ens fs c9 vol virs where
    k: "?k < length (m_atom_numbs d)" "?k < length (m_has_virial d)" "?k < length (m_energies d)"
       "?k < length (m_cells d)" "?k < length (m_volume d)" "?k < length (m_docname d)"
    and hv: "j < length (has_virial s)"
    and ens: "energies s = Some ens" "j < length ens"
    and vir: "store_virial s j (has_virial s ! j) (m_virials d) ?k = Inr virs"
    and c: "j < length (cells s)" "reshape_9 (cells s ! j) = Inr c9" "vec2volume c9 = Inr vol"
    and x: "j < length (coords s)"
    and fs: "forces s = Some fs" "j < length fs"
    and ifr': "ifr' = ifr + 1"
    and d': "d' = d\<lparr>m_docname := (m_docname d)[?k := docname s],
                m_atom_numbs := (m_atom_numbs d)[?k := length (atom_types s)],
                m_has_virial := (m_has_virial d)[?k := has_virial s ! j],
                m_energies := (m_energies d)[?k := ens ! j], m_virials := virs,
                m_cells := (m_cells d)[?k := c9], m_volume := (m_volume d)[?k := vol],
                m_atom_types := (m_atom_types d)(?k \<mapsto> atom_types s),
                m_coords := (m_coords d)(?k \<mapsto> coords s ! j),
                m_forces := (m_forces d)(?k \<mapsto> fs ! j)\<rparr>"
    by blast
  note v = store_virial_Inr [OF vir]
  show "ifr' = ifr + 1" by (rule ifr')
  show "?k < nframe d" using k assms(2) by (simp add: wf_merged_def)
  show "wf_merged d'" using assms(2) v(1) by (simp add: wf_merged_def d')
  show "nframe d' = nframe d" by (simp add: d')
  show "stored s j (m_virials d ! ?k) d' ?k"
    using k hv ens c x fs v(3,4) by (cases "has_virial s ! j") (auto simp: stored_def d')
  show "same_frame d d' k'" if "k' \<noteq> ?k" for k'
    using that v(2) by (simp add: same_frame_def d')
qed


lemma same_frame_trans: "same_frame d d1 k \<Longrightarrow> same_frame d1 d2 k \<Longrightarrow> same_frame d d2 k"
  by (simp add: same_frame_def)

lemma same_frame_refl: "same_frame d d k"
  by (simp add: same_frame_def)

lemma stored_same_frame: "stored s j old d k \<Longrightarrow> same_frame d d' k \<Longrightarrow> stored s j old d' k"
  by (simp add: same_frame_def stored_def)

lemma same_frame_virials: "same_frame d d' k \<Longrightarrow> m_virials d' ! k = m_virials d ! k"
  by (simp add: same_frame_def)

lemma merge_list_Inr:
  assumes "merge_list ps (ifr, d) = Inr (ifr', d')" and "wf_merged d" and "- 1 \<le> ifr"
  shows "ifr' = ifr + int (length ps) \<and> wf_merged d' \<and> nframe d' = nframe d
    \<and> (\<forall>g < length ps. nat (ifr + 1) + g < nframe d
          \<and> stored (fst (ps ! g)) (snd (ps ! g)) (m_virials d ! (nat (ifr + 1) + g)) d'
               (nat (ifr + 1) + g))
    \<and> (\<forall>k. k < nat (ifr + 1) \<or> nat (ifr + 1) + length ps \<le> k \<longrightarrow> same_frame d d' k)"
  using assms
proof (induction ps arbitrary: ifr d)
  case Nil
  then show ?case by (simp add: same_frame_refl)
next
  case (Cons p ps)
  let ?k = "nat (ifr + 1)"
  from Cons.prems(1) obtain st1 where
    "merge_frame (fst p) (snd p) (ifr, d) = Inr st1" and "merge_list ps st1 = Inr (ifr', d')"
    by (auto simp: bind_eq_Inr_iff)
  then obtain ifr1 d1 where
    step: "merge_frame (fst p) (snd p) (ifr, d) = Inr (ifr1, d1)"
    and rest: "merge_list ps (ifr1, d1) = Inr (ifr', d')"
    by (cases st1) auto
  note f = merge_frame_Inr [OF step Cons.prems(2)]
  have ifr1: "ifr1 = ifr + 1" by (rule f(1))
  have k1: "nat (ifr1 + 1) = Suc ?k"
    using Cons.prems(3) ifr1 by simp
  have "- 1 \<le> ifr1" using Cons.prems(3) ifr1 by simp
  from Cons.IH [OF rest f(3) this]
  have ih1: "ifr' = ifr1 + int (length ps)" and ih2: "wf_merged d'"
    and ih3: "nframe d' = nframe d1"
    and ih4: "\<And>g. g < length ps \<Longrightarrow> Suc ?k + g < nframe d1
          \<and> stored (fst (ps ! g)) (snd (ps ! g)) (m_virials d1 ! (Suc ?k + g)) d' (Suc ?k + g)"
    and ih5: "\<And>k. k < Suc ?k \<or> Suc ?k + length ps \<le> k \<Longrightarrow> same_frame d1 d' k"
    unfolding k1 by blast+
  have a: "ifr' = ifr + int (length (p # ps))"
    using ih1 ifr1 by simp
  have b: "nframe d' = nframe d"
    using ih3 f(4) by simp
  have c: "?k + g < nframe d
          \<and> stored (fst ((p # ps) ! g)) (snd ((p # ps) ! g)) (m_virials d ! (?k + g)) d' (?k + g)"
    if "g < length (p # ps)" for g
  proof (cases g)
    case 0
    have "stored (fst p) (snd p) (m_virials d ! ?k) d' ?k"
      using f(5) ih5 [of ?k] by (auto intro: stored_same_frame)
    with f(2) 0 show ?thesis by simp
  next
    case (Suc g')
    with that have g': "g' < length ps" by simp
    have "same_frame d d1 (Suc ?k + g')"
      by (rule f(6)) simp
    then have "m_virials d1 ! (Suc ?k + g') = m_virials d ! (Suc ?k + g')"
      by (rule same_frame_virials)
    with ih4 [OF g'] f(4) Suc show ?thesis by simp
  qed
  have e: "same_frame d d' k" if "k < ?k \<or> ?k + length (p # ps) \<le> k" for k
  proof -
    from that have "k \<noteq> ?k" by auto
    then have "same_frame d d1 k" by (rule f(6))
    moreover have "same_frame d1 d' k"
      using that by (intro ih5) auto
    ultimately show ?thesis by (rule same_frame_trans)
  qed
  from a ih2 b c e show ?case by blast
qed

lemma merge_list_append:
  "merge_list (ps @ qs) st = bind (merge_list ps st) (merge_list qs)"
proof (induction ps arbitrary: st)
  case Nil
  then show ?case by simp
next
  case (Cons p ps)
  then show ?case
    by (cases "merge_frame (fst p) (snd p) st") simp_all
qed

lemma merge_frames_list: "merge_frames s js st = merge_list (map (\<lambda>j. (s, j)) js) st"
proof (induction js arbitrary: st)
  case Nil
  then show ?case by simp
next
  case (Cons j js)
  then show ?case
    by (cases "merge_frame s j st") simp_all
qed

lemma merge_systems_list: "merge_systems dm st = merge_list (frame_list dm) st"
proof (induction dm arbitrary: st)
  case Nil
  then show ?case by (simp add: frame_list_def)
next
  case (Cons a dm)
  have "frame_list (a # dm) = map (\<lambda>j. (snd a, j)) [0..<frames (snd a)] @ frame_list dm"
    by (simp add: frame_list_def)
  then show ?case
    using Cons.IH
    by (cases "merge_list (map (Pair (snd a)) [0..<frames (snd a)]) st")
      (simp_all add: merge_list_append merge_frames_list)
qed

lemma length_frame_list: "length (frame_list dm) = sum_list (map (\<lambda>is. frames (snd is)) dm)"
  by (induction dm) (simp_all add: frame_list_def)

lemma wf_init_data: "wf_merged (init_data n)" and nframe_init_data: "nframe (init_data n) = n"
  by (simp_all add: wf_merged_def init_data_def)

lemma read_multi_deepmd_Inr:
  assumes "read_multi_deepmd folder entries = Inr d"
  shows "\<exists>dm. load_systems folder 0 entries = Inr dm \<and> dm \<noteq> []
          \<and> nframe d = length (frame_list dm) \<and> wf_merged d
          \<and> (\<forall>g < nframe d.
                stored (fst (frame_list dm ! g)) (snd (frame_list dm ! g)) (replicate 6 0) d g)"
proof -
  from assms obtain dm st where
    dm: "load_systems folder 0 entries = Inr dm" and ne: "dm \<noteq> []"
    and m: "merge_systems dm (- 1, init_data (length (frame_list dm))) = Inr st"
    and d: "d = snd st"
    by (auto simp: read_multi_deepmd_def np_sum_def py_range_def bind_eq_Inr_iff Let_def
        length_frame_list
        split: if_splits)
  let ?n = "length (frame_list dm)"
  from m d have "merge_list (frame_list dm) (- 1, init_data ?n) = Inr (fst st, d)"
    by (simp add: merge_systems_list)
  from merge_list_Inr [OF this wf_init_data]
  have wf: "wf_merged d" and n: "nframe d = ?n"
    and st: "\<And>g. g < ?n \<Longrightarrow>
          stored (fst (frame_list dm ! g)) (snd (frame_list dm ! g))
            (m_virials (init_data ?n) ! g) d g"
    by (simp_all add: nframe_init_data)
  have "m_virials (init_data ?n) ! g = replicate 6 0" if "g < ?n" for g
    using that by (simp add: init_data_def)
  with st n wf dm ne show ?thesis by auto
qed

section \<open>Decimal text and the header reader\<close>

lemma digit_val_digit_char: "d < 10 \<Longrightarrow> digit_val (digit_char d) = Some d"
proof -
  assume "d < 10"
  then have "d \<in> {0, 1, 2, 3, 4, 5, 6, 7, 8, 9}" by auto
  then show ?thesis
    by (auto simp: digit_val_def digit_char_def)
qed

lemma digit_char_neq: "d < 10 \<Longrightarrow> digit_char d \<noteq> CHR 0x0A \<and> digit_char d \<noteq> CHR '' '' \<and> digit_char d \<noteq> CHR ''-''"
proof -
  assume "d < 10"
  then have "d \<in> {0, 1, 2, 3, 4, 5, 6, 7, 8, 9}" by auto
  then show ?thesis
    by (auto simp: digit_char_def)
qed

lemma str_nat_chars: "c \<in> set (str_nat n) \<Longrightarrow> \<exists>d < 10. c = digit_char d"
proof (induction n rule: str_nat.induct)
  case (1 n)
  show ?case
  proof (cases "n < 10")
    case True
    with "1.prems" show ?thesis by (auto simp: str_nat.simps [of n])
  next
    case False
    with "1.prems" have "c \<in> set (str_nat (n div 10)) \<or> c = digit_char (n mod 10)"
      by (auto simp: str_nat.simps [of n])
    then show ?thesis
    proof
      assume "c \<in> set (str_nat (n div 10))"
      with "1.IH" False show ?thesis by simp
    next
      assume "c = digit_char (n mod 10)"
      moreover have "n mod 10 < 10" by simp
      ultimately show ?thesis by blast
    qed
  qed
qed

lemma str_nat_char_neq:
  assumes "c \<in> set (str_nat n)"
  shows "c \<noteq> CHR 0x0A \<and> c \<noteq> CHR '' '' \<and> c \<noteq> CHR ''-''"
proof -
  from str_nat_chars [OF assms] obtain d where "d < 10" and "c = digit_char d"
    by blast
  with digit_char_neq [of d] show ?thesis by simp
qed

lemma str_nat_no_sep:
  "CHR 0x0A \<notin> set (str_nat n)" "CHR '' '' \<notin> set (str_nat n)" "CHR ''-'' \<notin> set (str_nat n)"
proof -
  show "CHR 0x0A \<notin> set (str_nat n)" using str_nat_char_neq [of "CHR 0x0A" n] by blast
  show "CHR '' '' \<notin> set (str_nat n)" using str_nat_char_neq [of "CHR '' ''" n] by blast
  show "CHR ''-'' \<notin> set (str_nat n)" using str_nat_char_neq [of "CHR ''-''" n] by blast
qed

lemma str_nat_not_Nil: "str_nat n \<noteq> []"
  by (simp add: str_nat.simps [of n])

lemma parse_digits_append:
  "parse_digits acc (xs @ ys) =
     (case parse_digits acc xs of None \<Rightarrow> None | Some a \<Rightarrow> parse_digits a ys)"
  by (induction xs arbitrary: acc) (auto split: option.splits)

lemma parse_digits_str_nat: "parse_digits 0 (str_nat n) = Some n"
proof (induction n rule: str_nat.induct)
  case (1 n)
  show ?case
  proof (cases "n < 10")
    case True
    then show ?thesis
      by (simp add: str_nat.simps [of n] digit_val_digit_char)
  next
    case False
    with "1.IH" have "parse_digits 0 (str_nat (n div 10)) = Some (n div 10)" by simp
    moreover have "digit_val (digit_char (n mod 10)) = Some (n mod 10)"
      by (rule digit_val_digit_char) simp
    ultimately show ?thesis
      using False by (simp add: str_nat.simps [of n] parse_digits_append)
  qed
qed

lemma parse_nat_str_nat: "parse_nat (str_nat n) = Some n"
  by (simp add: parse_nat_def str_nat_not_Nil parse_digits_str_nat)

lemma hd_str_nat: "hd (str_nat n) \<noteq> CHR ''-''"
  using str_nat_no_sep(3) [of n] str_nat_not_Nil [of n] by (cases "str_nat n") auto

lemma parse_int_str_int: "parse_int (str_int i) = Some i"
proof (cases "i < 0")
  case True
  then show ?thesis
    by (simp add: parse_int_def str_int_def parse_nat_str_nat)
next
  case False
  obtain c cs where s: "str_nat (nat i) = c # cs"
    using str_nat_not_Nil [of "nat i"] by (cases "str_nat (nat i)") auto
  with hd_str_nat [of "nat i"] have "c \<noteq> CHR ''-''" by simp
  with False s parse_nat_str_nat [of "nat i"] show ?thesis
    by (simp add: parse_int_def str_int_def)
qed

lemma str_int_no_sep: "CHR '' '' \<notin> set (str_int i)"
  by (simp add: str_int_def str_nat_no_sep)

lemma takeWhile_sep: "c \<notin> set xs \<Longrightarrow> takeWhile (\<lambda>x. x \<noteq> c) (xs @ c # ys) = xs"
  by (induction xs) auto

lemma dropWhile_sep: "c \<notin> set xs \<Longrightarrow> dropWhile (\<lambda>x. x \<noteq> c) (xs @ c # ys) = c # ys"
  by (induction xs) auto

lemma first_field_str_int: "first_field (str_int i @ '' '' @ rest) = str_int i"
  by (simp add: first_field_def takeWhile_sep str_int_no_sep)

lemma read_line_append:
  "CHR 0x0A \<notin> set l \<Longrightarrow> read_line (l @ nl @ rest) = (l, rest)"
  by (simp add: read_line_def nl_def takeWhile_sep dropWhile_sep)

lemma parse_pair_line:
  "parse_pair (str_nat n @ '' '' @ str_nat (if hv then 1 else 0)) = Some (n, hv)"
proof -
  have "str_nat 1 = ''1''" "str_nat 0 = ''0''"
    by (simp_all add: str_nat.simps digit_char_def)
  then show ?thesis
    by (simp add: parse_pair_def Let_def takeWhile_sep dropWhile_sep str_nat_no_sep
        parse_nat_str_nat)
qed

lemma header_lines_parse:
  assumes "header_lines d is = Inr h"
  shows "parse_pairs (length is) (h @ rest) =
           Some (map (\<lambda>i. (m_atom_numbs d ! i, m_has_virial d ! i)) is)"
  using assms
proof (induction "is" arbitrary: h)
  case Nil
  then show ?case by simp
next
  case (Cons i "is")
  from Cons.prems obtain l h' where
    l: "header_line d i = Inr l" and h': "header_lines d is = Inr h'" and h: "h = l @ h'"
    by (auto simp: bind_eq_Inr_iff)
  define p where
    "p = str_nat (m_atom_numbs d ! i) @ '' '' @ str_nat (if m_has_virial d ! i then 1 else 0)"
  from l have l': "l = p @ nl"
    by (auto simp: header_line_def bind_eq_Inr_iff get_at_eq_Inr_iff p_def)
  have "CHR 0x0A \<notin> set p"
    by (simp add: str_nat_no_sep p_def)
  then have r: "read_line (p @ nl @ h' @ rest) = (p, h' @ rest)"
    by (rule read_line_append)
  have pp: "parse_pair p = Some (m_atom_numbs d ! i, m_has_virial d ! i)"
    unfolding p_def by (rule parse_pair_line)
  from Cons.IH [OF h'] show ?case
    by (simp add: h l' r pp)
qed

section \<open>The serializer\<close>

lemma convervirial_length: "convervirial v = Inr v6 \<Longrightarrow> length v6 = 6"
  unfolding convervirial_def by (elim bindE) auto

lemma frame_records_part:
  assumes "frame_records fstr d is = Inr b" and "i \<in> set is"
  shows "\<exists>r pre post. frame_record fstr d i = Inr r \<and> b = pre @ r @ post"
  using assms
proof (induction "is" arbitrary: b)
  case Nil
  then show ?case by simp
next
  case (Cons x xs)
  from Cons.prems(1) obtain r b' where
    r: "frame_record fstr d x = Inr r" and b': "frame_records fstr d xs = Inr b'"
    and b: "b = r @ b'"
    by (auto simp: bind_eq_Inr_iff)
  show ?case
  proof (cases "i = x")
    case True
    with r b have "frame_record fstr d i = Inr r \<and> b = [] @ r @ b'" by simp
    then show ?thesis by blast
  next
    case False
    with Cons.prems(2) have "i \<in> set xs" by simp
    from Cons.IH [OF b' this] obtain r' pre post where
      "frame_record fstr d i = Inr r'" and "b' = pre @ r' @ post" by blast
    with b have "frame_record fstr d i = Inr r' \<and> b = (r @ pre) @ r' @ post" by simp
    then show ?thesis by blast
  qed
qed

lemma atom_lines_part:
  assumes "atom_lines fstr d i js = Inr b" and "j \<in> set js"
  shows "\<exists>l pre post. atom_line fstr d i j = Inr l \<and> b = pre @ l @ post"
  using assms
proof (induction js arbitrary: b)
  case Nil
  then show ?case by simp
next
  case (Cons x xs)
  from Cons.prems(1) obtain l b' where
    l: "atom_line fstr d i x = Inr l" and b': "atom_lines fstr d i xs = Inr b'"
    and b: "b = l @ b'"
    by (auto simp: bind_eq_Inr_iff)
  show ?case
  proof (cases "j = x")
    case True
    with l b have "atom_line fstr d i j = Inr l \<and> b = [] @ l @ b'" by simp
    then show ?thesis by blast
  next
    case False
    with Cons.prems(2) have "j \<in> set xs" by simp
    from Cons.IH [OF b' this] obtain l' pre post where
      "atom_line fstr d i j = Inr l'" and "b' = pre @ l' @ post" by blast
    with b have "atom_line fstr d i j = Inr l' \<and> b = (l @ pre) @ l' @ post" by simp
    then show ?thesis by blast
  qed
qed

lemma dump_frame_record:
  assumes "dump fstr d = Inr out" and "g < nframe d"
  shows "\<exists>r pre post. frame_record fstr d g = Inr r \<and> out = pre @ r @ post"
proof -
  from assms(1) obtain h b where
    b: "frame_records fstr d [0..<nframe d] = Inr b" and out: "out = str_nat (nframe d) @ nl @ h @ b"
    by (auto simp: dump_def bind_eq_Inr_iff)
  from assms(2) have "g \<in> set [0..<nframe d]" by simp
  from frame_records_part [OF b this] obtain r pre post where
    "frame_record fstr d g = Inr r" and "b = pre @ r @ post" by blast
  with out have "frame_record fstr d g = Inr r
      \<and> out = (str_nat (nframe d) @ nl @ h @ pre) @ r @ post" by simp
  then show ?thesis by blast
qed

lemma frame_record_parts:
  assumes "frame_record fstr d g = Inr r"
  shows "\<exists>l1 c ls. energy_line fstr d g = Inr l1 \<and> g < length (m_atom_numbs d)
           \<and> atom_lines fstr d g [0..<m_atom_numbs d ! g] = Inr ls
           \<and> r = l1 @ join '' '' (map fstr c) @ nl @ ls"
  using assms unfolding frame_record_def
  by (elim bindE) (auto simp: get_at_eq_Inr_iff)

lemma map_nth_zip:
  assumes "length xs = n" and "length ys = n"
  shows "map (\<lambda>i. (xs ! i, ys ! i)) [0..<n] = zip xs ys"
  using assms by (intro nth_equalityI) simp_all

text \<open>
  C4. Round trip of the header: for every merged collection that \<open>read_multi_deepmd\<close>
  returns and every text that \<open>dump\<close> writes for it, reading the header block back
  (the first line as the number of frames, then one line with an atom count and a flag
  for each frame) gives exactly the pairs of atom count and virial flag of the collection,
  in the order of the frames.
\<close>

theorem header_round_trip:
  assumes "read_multi_deepmd folder entries = Inr d" and "dump fstr d = Inr out"
  shows "parse_header out = Some (zip (m_atom_numbs d) (m_has_virial d))
         \<and> length (m_atom_numbs d) = nframe d \<and> length (m_has_virial d) = nframe d"
proof -
  from read_multi_deepmd_Inr [OF assms(1)] have wf: "wf_merged d" by blast
  then have len: "length (m_atom_numbs d) = nframe d" "length (m_has_virial d) = nframe d"
    by (simp_all add: wf_merged_def)
  from assms(2) obtain h b where
    h: "header_lines d [0..<nframe d] = Inr h" and out: "out = str_nat (nframe d) @ nl @ h @ b"
    by (auto simp: dump_def bind_eq_Inr_iff)
  have "read_line out = (str_nat (nframe d), h @ b)"
    unfolding out by (rule read_line_append) (rule str_nat_no_sep)
  moreover from header_lines_parse [OF h, of b]
  have "parse_pairs (nframe d) (h @ b) = Some (zip (m_atom_numbs d) (m_has_virial d))"
    by (simp add: map_nth_zip [OF len])
  ultimately have "parse_header out = Some (zip (m_atom_numbs d) (m_has_virial d))"
    by (simp add: parse_header_def parse_nat_str_nat)
  with len show ?thesis by simp
qed

theorem header_round_trip_witness:
  "\<exists>d out. read_multi_deepmd ''./deepmd'' ex_parent = Inr d
     \<and> dump ex_fstr d = Inr out
     \<and> parse_header out = Some (zip (m_atom_numbs d) (m_has_virial d))
     \<and> zip (m_atom_numbs d) (m_has_virial d) = [(2, True), (2, True), (2, False)]"
proof -
  have "map_sum id (\<lambda>d. (zip (m_atom_numbs d) (m_has_virial d), isl (dump ex_fstr d)))
          (read_multi_deepmd ''./deepmd'' ex_parent)
        = Inr ([(2, True), (2, True), (2, False)], False)"
    by code_simp
  then obtain d where d: "read_multi_deepmd ''./deepmd'' ex_parent = Inr d"
    and z: "zip (m_atom_numbs d) (m_has_virial d) = [(2, True), (2, True), (2, False)]"
    and "\<not> isl (dump ex_fstr d)"
    by (cases "read_multi_deepmd ''./deepmd'' ex_parent") auto
  then obtain out where out: "dump ex_fstr d = Inr out"
    by (cases "dump ex_fstr d") auto
  from header_round_trip [OF d out] d out z show ?thesis by blast
qed

text \<open>
  C7. For every frame \<open>g\<close> of the merged collection and every atom \<open>a\<close> of it, the
  atom line that \<open>dump\<close> writes into the body begins with the decimal text of
  \<open>atom_types[a] + 1\<close>, where \<open>atom_types\<close> are the 0-based types of the system the
  frame comes from: read back, the first field of the line is that type plus one.
\<close>

theorem atom_line_type_index:
  assumes "load_systems folder 0 entries = Inr dm"
    and "read_multi_deepmd folder entries = Inr d"
    and "dump fstr d = Inr out"
    and "g < nframe d"
    and "a < m_atom_numbs d ! g"
  shows "\<exists>s j l rest pre post. g < length (frame_list dm) \<and> frame_list dm ! g = (s, j)
     \<and> m_atom_numbs d ! g = length (atom_types s)
     \<and> atom_line fstr d g a = Inr l \<and> out = pre @ l @ post
     \<and> l = str_int (atom_types s ! a + 1) @ '' '' @ rest
     \<and> parse_int (first_field l) = Some (atom_types s ! a + 1)"
proof -
  from read_multi_deepmd_Inr [OF assms(2)] assms(1) have
    n: "nframe d = length (frame_list dm)"
    and st: "\<And>g. g < nframe d \<Longrightarrow>
          stored (fst (frame_list dm ! g)) (snd (frame_list dm ! g)) (replicate 6 0) d g"
    by auto
  obtain s j where sj: "frame_list dm ! g = (s, j)"
    by (cases "frame_list dm ! g") auto
  from st [OF assms(4)] sj have ts: "m_atom_types d g = Some (atom_types s)"
    and numb: "m_atom_numbs d ! g = length (atom_types s)"
    by (simp_all add: stored_def)
  from dump_frame_record [OF assms(3,4)] obtain r pre1 post1 where
    r: "frame_record fstr d g = Inr r" and out: "out = pre1 @ r @ post1"
    by blast
  from frame_record_parts [OF r] obtain l1 c ls where
    ls: "atom_lines fstr d g [0..<m_atom_numbs d ! g] = Inr ls"
    and r': "r = l1 @ join '' '' (map fstr c) @ nl @ ls"
    by blast
  from assms(5) have "a \<in> set [0..<m_atom_numbs d ! g]" by simp
  from atom_lines_part [OF ls this] obtain l pre2 post2 where
    l: "atom_line fstr d g a = Inr l" and ls': "ls = pre2 @ l @ post2"
    by blast
  have o: "out = (pre1 @ l1 @ join '' '' (map fstr c) @ nl @ pre2) @ l @ (post2 @ post1)"
    by (simp add: out r' ls')
  from l ts obtain rest where rest: "l = str_int (atom_types s ! a + 1) @ '' '' @ rest"
    unfolding atom_line_def
    by (elim bindE) (auto simp: get_key_eq_Inr_iff get_at_eq_Inr_iff)
  have p: "parse_int (first_field l) = Some (atom_types s ! a + 1)"
    unfolding rest by (simp only: first_field_str_int parse_int_str_int)
  have gl: "g < length (frame_list dm)"
    using assms(4) n by simp
  show ?thesis
    by (intro exI conjI) (rule gl sj numb l o rest p)+
qed

theorem atom_line_type_index_witness:
  "\<exists>dm d out. load_systems ''./deepmd'' 0 ex_parent = Inr dm
     \<and> read_multi_deepmd ''./deepmd'' ex_parent = Inr d
     \<and> dump ex_fstr d = Inr out \<and> 0 < nframe d \<and> 1 < m_atom_numbs d ! 0
     \<and> (\<exists>s j l. frame_list dm ! 0 = (s, j) \<and> atom_line ex_fstr d 0 1 = Inr l
           \<and> parse_int (first_field l) = Some (atom_types s ! 1 + 1))"
proof -
  have "\<not> isl (load_systems ''./deepmd'' 0 ex_parent)"
    by code_simp
  then obtain dm where dm: "load_systems ''./deepmd'' 0 ex_parent = Inr dm"
    by (cases "load_systems ''./deepmd'' 0 ex_parent") auto
  have "map_sum id (\<lambda>d. (nframe d, m_atom_numbs d ! 0, isl (dump ex_fstr d)))
          (read_multi_deepmd ''./deepmd'' ex_parent) = Inr (3, 2, False)"
    by code_simp
  then obtain d where d: "read_multi_deepmd ''./deepmd'' ex_parent = Inr d"
    and n: "nframe d = 3" and a: "m_atom_numbs d ! 0 = 2" and "\<not> isl (dump ex_fstr d)"
    by (cases "read_multi_deepmd ''./deepmd'' ex_parent") auto
  then obtain out where out: "dump ex_fstr d = Inr out"
    by (cases "dump ex_fstr d") auto
  from n a have g: "0 < nframe d" and a': "1 < m_atom_numbs d ! 0" by simp_all
  from atom_line_type_index [OF dm d out g a'] dm d out g a' show ?thesis by blast
qed

section \<open>The shape of a loaded system\<close>

lemma length_chunk [simp]: "length (chunk n w xs) = n"
  by (simp add: chunk_def)

lemma chunk_elem:
  assumes "c \<in> set (chunk n w xs)" and "n * w \<le> length xs"
  shows "length c = w" and "set c \<subseteq> set xs"
proof -
  from assms(1) obtain i where i: "i < n" and c: "c = take w (drop (i * w) xs)"
    by (auto simp: chunk_def)
  from i have "Suc i * w \<le> n * w"
    by (intro mult_le_mono1) simp
  with assms(2) have "i * w + w \<le> length xs" by simp
  then show "length c = w" by (simp add: c)
  show "set c \<subseteq> set xs"
    unfolding c using set_take_subset set_drop_subset by fast
qed

lemma chunk_3x3:
  assumes "length a = n * 9" and "m \<in> set (chunk n 3 (chunk (n * 3) 3 a))"
  shows "is_3x3 m"
proof -
  let ?rows = "chunk (n * 3) 3 a"
  have rows: "length r = 3" if "r \<in> set ?rows" for r
    using that assms(1) by (intro chunk_elem(1) [of r "n * 3" 3 a]) simp_all
  have "n * 3 \<le> length ?rows" by simp
  from chunk_elem [OF assms(2) this] have "length m = 3" and "set m \<subseteq> set ?rows" .
  with rows show ?thesis
    by (auto simp: is_3x3_def list_all_iff)
qed

lemma reshape_m1_3_3_Inr:
  assumes "reshape_m1_3_3 a = Inr c3"
  shows "length c3 = length a div 9" and "list_all is_3x3 c3"
proof -
  from assms have m: "length a mod 9 = 0"
    and c3: "c3 = chunk (length a div 9) 3 (chunk (length a div 9 * 3) 3 a)"
    by (auto simp: reshape_m1_3_3_def Let_def split: if_splits)
  show "length c3 = length a div 9" by (simp add: c3)
  from m have "length a = length a div 9 * 9" by presburger
  then show "list_all is_3x3 c3"
    unfolding c3 list_all_iff using chunk_3x3 by blast
qed

lemma reshape_n_3_3_Inr:
  assumes "reshape_n_3_3 a n = Inr v3"
  shows "length v3 = n" and "list_all is_3x3 v3"
proof -
  from assms have l: "length a = n * 9" and v3: "v3 = chunk n 3 (chunk (n * 3) 3 a)"
    by (auto simp: reshape_n_3_3_def split: if_splits)
  show "length v3 = n" by (simp add: v3)
  show "list_all is_3x3 v3"
    unfolding v3 list_all_iff using chunk_3x3 [OF l] by blast
qed

lemma reshape_n_m1_3_Inr:
  assumes "reshape_n_m1_3 a n = Inr x3"
  shows "0 < n" and "length x3 = n"
  using assms by (auto simp: reshape_n_m1_3_def Let_def split: if_splits)

lemma reshape_n_Inr: "reshape_n a n = Inr e \<Longrightarrow> length e = n"
  by (auto simp: reshape_n_def split: if_splits)


lemma load_one_Inr:
  assumes "load_one ii acc = Inr acc'"
  shows "\<exists>n c3 x3. 0 < n \<and> nframes acc' = Some n
     \<and> all_cells acc' = all_cells acc @ [c3] \<and> length c3 = n \<and> list_all is_3x3 c3
     \<and> all_coords acc' = all_coords acc @ [x3] \<and> length x3 = n
     \<and> (all_eners acc' = all_eners acc \<or> (\<exists>e. all_eners acc' = all_eners acc @ [e] \<and> e \<noteq> []))
     \<and> (all_forces acc' = all_forces acc
         \<or> (\<exists>f3. all_forces acc' = all_forces acc @ [f3] \<and> f3 \<noteq> []))
     \<and> (all_virs acc' = all_virs acc
         \<or> (\<exists>v3. all_virs acc' = all_virs acc @ [v3] \<and> list_all is_3x3 v3))"
proof -
  from assms obtain cells coords eners forces virs c3 x3 eners1 forces_out virs_out where
    c3: "reshape_m1_3_3 cells = Inr c3"
    and x3: "reshape_n_m1_3 coords (length c3) = Inr x3"
    and e1: "(case eners of None \<Rightarrow> Inr None
              | Some e \<Rightarrow> bind (reshape_n e (length c3)) (\<lambda>e1. Inr (Some e1))) = Inr eners1"
    and fo: "(case forces of None \<Rightarrow> Inr (all_forces acc)
              | Some f \<Rightarrow> if length f > 0
                  then bind (reshape_n_m1_3 f (length c3)) (\<lambda>f3. Inr (all_forces acc @ [f3]))
                  else Inr (all_forces acc)) = Inr forces_out"
    and vo: "(case virs of None \<Rightarrow> Inr (all_virs acc)
              | Some v \<Rightarrow> if length v > 0
                  then bind (reshape_n_3_3 v (length c3)) (\<lambda>v3. Inr (all_virs acc @ [v3]))
                  else Inr (all_virs acc)) = Inr virs_out"
    and acc': "acc' = \<lparr>nframes = Some (length c3), all_cells = all_cells acc @ [c3],
          all_coords = all_coords acc @ [x3],
          all_eners = (case eners1 of None \<Rightarrow> all_eners acc
                      | Some e \<Rightarrow> if length e > 0 then all_eners acc @ [e] else all_eners acc),
          all_forces = forces_out, all_virs = virs_out\<rparr>"
    unfolding load_one_def Let_def
    apply (elim bindE)
    apply (simp only: split_paired_all prod.case)
    apply (elim bindE)
    apply (simp only: sum.inject)
    done
  note n = reshape_n_m1_3_Inr [OF x3]
  have e: "all_eners acc' = all_eners acc \<or> (\<exists>e. all_eners acc' = all_eners acc @ [e] \<and> e \<noteq> [])"
    by (cases eners1) (auto simp: acc')
  have f: "all_forces acc' = all_forces acc
         \<or> (\<exists>f3. all_forces acc' = all_forces acc @ [f3] \<and> f3 \<noteq> [])"
  proof (cases forces)
    case None
    with fo show ?thesis by (simp add: acc')
  next
    case (Some f)
    show ?thesis
    proof (cases "length f > 0")
      case True
      with fo Some obtain f3 where "reshape_n_m1_3 f (length c3) = Inr f3"
        and "forces_out = all_forces acc @ [f3]"
        by (auto simp: bind_eq_Inr_iff)
      with reshape_n_m1_3_Inr [of f "length c3" f3] n(1) show ?thesis
        by (auto simp: acc')
    next
      case False
      with fo Some show ?thesis by (simp add: acc')
    qed
  qed
  have v: "all_virs acc' = all_virs acc
         \<or> (\<exists>v3. all_virs acc' = all_virs acc @ [v3] \<and> list_all is_3x3 v3)"
  proof (cases virs)
    case None
    with vo show ?thesis by (simp add: acc')
  next
    case (Some v)
    show ?thesis
    proof (cases "length v > 0")
      case True
      with vo Some obtain v3 where "reshape_n_3_3 v (length c3) = Inr v3"
        and "virs_out = all_virs acc @ [v3]"
        by (auto simp: bind_eq_Inr_iff)
      with reshape_n_3_3_Inr(2) [of v "length c3" v3] show ?thesis
        by (auto simp: acc')
    next
      case False
      with vo Some show ?thesis by (simp add: acc')
    qed
  qed
  have "0 < length c3 \<and> nframes acc' = Some (length c3)
     \<and> all_cells acc' = all_cells acc @ [c3] \<and> length c3 = length c3 \<and> list_all is_3x3 c3
     \<and> all_coords acc' = all_coords acc @ [x3] \<and> length x3 = length c3"
    using n reshape_m1_3_3_Inr(2) [OF c3] by (simp add: acc')
  with e f v show ?thesis by blast
qed

text \<open>The invariant of the loop over the sets.\<close>

lemma load_sets_Inr:
  assumes "load_sets ss acc = Inr acc'"
    and "\<forall>n. nframes acc = Some n \<longrightarrow>
           0 < n \<and> n \<le> length (concat (all_cells acc)) \<and> n \<le> length (concat (all_coords acc))"
    and "list_all is_3x3 (concat (all_cells acc))"
    and "all_eners acc \<noteq> [] \<longrightarrow> concat (all_eners acc) \<noteq> []"
    and "all_forces acc \<noteq> [] \<longrightarrow> concat (all_forces acc) \<noteq> []"
    and "list_all is_3x3 (concat (all_virs acc))"
  shows "(\<forall>n. nframes acc' = Some n \<longrightarrow>
           0 < n \<and> n \<le> length (concat (all_cells acc')) \<and> n \<le> length (concat (all_coords acc')))
     \<and> list_all is_3x3 (concat (all_cells acc'))
     \<and> (all_eners acc' \<noteq> [] \<longrightarrow> concat (all_eners acc') \<noteq> [])
     \<and> (all_forces acc' \<noteq> [] \<longrightarrow> concat (all_forces acc') \<noteq> [])
     \<and> list_all is_3x3 (concat (all_virs acc'))"
  using assms
proof (induction ss arbitrary: acc)
  case Nil
  then show ?case by simp
next
  case (Cons ii ss)
  from Cons.prems(1) obtain acc1 where
    one: "load_one ii acc = Inr acc1" and rest: "load_sets ss acc1 = Inr acc'"
    by (auto simp: bind_eq_Inr_iff)
  from load_one_Inr [OF one] obtain n c3 x3 where
    n: "0 < n" "nframes acc1 = Some n"
    and c: "all_cells acc1 = all_cells acc @ [c3]" "length c3 = n" "list_all is_3x3 c3"
    and x: "all_coords acc1 = all_coords acc @ [x3]" "length x3 = n"
    and e: "all_eners acc1 = all_eners acc \<or> (\<exists>e. all_eners acc1 = all_eners acc @ [e] \<and> e \<noteq> [])"
    and f: "all_forces acc1 = all_forces acc
         \<or> (\<exists>f3. all_forces acc1 = all_forces acc @ [f3] \<and> f3 \<noteq> [])"
    and v: "all_virs acc1 = all_virs acc
         \<or> (\<exists>v3. all_virs acc1 = all_virs acc @ [v3] \<and> list_all is_3x3 v3)"
    by blast
  have 1: "\<forall>m. nframes acc1 = Some m \<longrightarrow>
           0 < m \<and> m \<le> length (concat (all_cells acc1)) \<and> m \<le> length (concat (all_coords acc1))"
    using n c x by simp
  have 2: "list_all is_3x3 (concat (all_cells acc1))"
    using c Cons.prems(3) by simp
  have 3: "all_eners acc1 \<noteq> [] \<longrightarrow> concat (all_eners acc1) \<noteq> []"
    using e Cons.prems(4) by auto
  have 4: "all_forces acc1 \<noteq> [] \<longrightarrow> concat (all_forces acc1) \<noteq> []"
    using f Cons.prems(5) by auto
  have 5: "list_all is_3x3 (concat (all_virs acc1))"
    using v Cons.prems(6) by auto
  from Cons.IH [OF rest 1 2 3 4 5] show ?case .
qed

lemma concatenate_Inr: "concatenate arrays = Inr xs \<Longrightarrow> xs = concat arrays"
  by (auto simp: concatenate_def split: if_splits)

lemma concatenate_frames_Inr: "concatenate_frames arrays = Inr xs \<Longrightarrow> xs = concat arrays"
  by (auto simp: concatenate_frames_def Let_def split: if_splits)

lemma to_system_data_Inr:
  assumes "to_system_data folder dir = Inr s"
  shows "0 < frames s" and "frames s \<le> length (cells s)" and "list_all is_3x3 (cells s)"
    and "frames s \<le> length (coords s)"
    and "case energies s of None \<Rightarrow> True | Some ens \<Rightarrow> ens \<noteq> []"
    and "case forces s of None \<Rightarrow> True | Some fs \<Rightarrow> fs \<noteq> []"
    and "case virials s of None \<Rightarrow> True | Some vs \<Rightarrow> list_all is_3x3 vs"
proof -
  from assms obtain data acc n cs xs fs vs where
    acc: "load_sets (sets dir) empty_acc = Inr acc"
    and n: "(case nframes acc of None \<Rightarrow> Inl UnboundLocalError | Some n \<Rightarrow> Inr n) = Inr n"
    and cs: "concatenate (all_cells acc) = Inr cs"
    and xs: "concatenate_frames (all_coords acc) = Inr xs"
    and fs: "(if length (all_forces acc) > 0
           then bind (concatenate_frames (all_forces acc)) (\<lambda>fs. Inr (Some fs))
           else Inr None) = Inr fs"
    and vs: "(if length (all_virs acc) > 0
           then bind (concatenate (all_virs acc)) (\<lambda>vs. Inr (Some vs))
           else Inr None) = Inr vs"
    and s: "s = topology.extend data
            (system_data.fields [0, 0, 0] folder n cs xs
               (if length (all_eners acc) > 0 then Some (concat (all_eners acc)) else None)
               fs vs (if nopbc_file dir then Some True else None))"
    unfolding to_system_data_def
    by (elim bindE) blast
  have proj: "frames s = n" "cells s = cs" "coords s = xs" "forces s = fs" "virials s = vs"
    "energies s = (if length (all_eners acc) > 0 then Some (concat (all_eners acc)) else None)"
    by (simp_all add: s topology.extend_def system_data.fields_def system_data.defs topology.defs)
  from load_sets_Inr [OF acc] have
    i1: "\<And>m. nframes acc = Some m \<Longrightarrow>
           0 < m \<and> m \<le> length (concat (all_cells acc)) \<and> m \<le> length (concat (all_coords acc))"
    and i2: "list_all is_3x3 (concat (all_cells acc))"
    and i3: "all_eners acc \<noteq> [] \<longrightarrow> concat (all_eners acc) \<noteq> []"
    and i4: "all_forces acc \<noteq> [] \<longrightarrow> concat (all_forces acc) \<noteq> []"
    and i5: "list_all is_3x3 (concat (all_virs acc))"
    by (simp_all add: empty_acc_def)
  from n have n': "nframes acc = Some n" by (cases "nframes acc") auto
  note c = concatenate_Inr [OF cs] and x = concatenate_frames_Inr [OF xs]
  from i1 [OF n'] show "0 < frames s" "frames s \<le> length (cells s)" "frames s \<le> length (coords s)"
    by (simp_all add: proj c x)
  from i2 show "list_all is_3x3 (cells s)" by (simp add: proj c)
  from i3 show "case energies s of None \<Rightarrow> True | Some ens \<Rightarrow> ens \<noteq> []"
    by (simp add: proj)
  from fs i4 show "case forces s of None \<Rightarrow> True | Some fs \<Rightarrow> fs \<noteq> []"
    by (auto simp: proj bind_eq_Inr_iff dest!: concatenate_frames_Inr split: if_splits)
  from vs i5 show "case virials s of None \<Rightarrow> True | Some vs \<Rightarrow> list_all is_3x3 vs"
    by (auto simp: proj bind_eq_Inr_iff dest!: concatenate_Inr split: if_splits)
qed

lemma load_systems_well_shaped:
  assumes "load_systems folder i entries = Inr dm" and "is \<in> set dm"
  shows "well_shaped (snd is)"
proof -
  from load_systems_entries [OF assms] obtain fi dir idata where
    t: "to_system_data (path_join folder fi) dir = Inr idata"
    and s: "snd is = add_has_virial idata"
    by blast
  from to_system_data_Inr [OF t] show ?thesis
    unfolding well_shaped_def s by (simp cong: option.case_cong)
qed

section \<open>Energies and forces in the merge\<close>

lemma is_3x3_nth:
  assumes "is_3x3 m" and "i < 3" and "j < 3"
  shows "idx2 m i j = Inr (m ! i ! j)"
proof -
  from assms(1) have "length m = 3" and "\<forall>row \<in> set m. length row = 3"
    by (simp_all add: is_3x3_def list_all_iff)
  with assms(2) have "length (m ! i) = 3" by simp
  with \<open>length m = 3\<close> assms(2,3) show ?thesis
    by (simp add: idx2_def get_at_def)
qed

lemma convervirial_3x3:
  assumes "is_3x3 m"
  shows "convervirial m = Inr [m ! 0 ! 0, m ! 1 ! 1, m ! 2 ! 2, m ! 0 ! 1, m ! 1 ! 2, m ! 0 ! 2]"
  by (simp add: convervirial_def is_3x3_nth [OF assms])

lemma reshape_9_3x3:
  assumes "is_3x3 c"
  shows "reshape_9 c = Inr (concat c)" and "length (concat c) = 9"
proof -
  from assms obtain r0 r1 r2 where c: "c = [r0, r1, r2]"
    by (auto simp: is_3x3_def length_Suc_conv numeral_3_eq_3)
  with assms show "length (concat c) = 9"
    by (simp add: is_3x3_def)
  then show "reshape_9 c = Inr (concat c)"
    by (simp add: reshape_9_def)
qed

lemma vec2volume_length_9:
  assumes "length c = 9"
  shows "\<exists>vol. vec2volume c = Inr vol"
proof -
  from assms obtain a0 a1 a2 b0 b1 b2 c0 c1 c2 where "c = [a0, a1, a2, b0, b1, b2, c0, c1, c2]"
    by (auto simp: length_Suc_conv eval_nat_numeral)
  then show ?thesis
    by (simp add: vec2volume_def dot_def)
qed

lemma well_shaped_has_virial:
  assumes "well_shaped s" and "j < frames s"
  shows "j < length (has_virial s)"
    and "has_virial s ! j \<Longrightarrow> \<exists>vs. virials s = Some vs \<and> j < length vs \<and> is_3x3 (vs ! j)"
proof -
  from assms(1) have hv: "has_virial s = replicate (frames s)
      (case virials s of None \<Rightarrow> False | Some vs \<Rightarrow> length vs = frames s)"
    and vs: "case virials s of None \<Rightarrow> True | Some vs \<Rightarrow> list_all is_3x3 vs"
    by (simp_all add: well_shaped_def)
  from hv have "length (has_virial s) = frames s"
    by (metis length_replicate)
  with assms(2) show "j < length (has_virial s)" by simp
  assume "has_virial s ! j"
  with hv assms(2) have b: "case virials s of None \<Rightarrow> False | Some vs \<Rightarrow> length vs = frames s"
    by (metis nth_replicate)
  then obtain vs where v: "virials s = Some vs" and "length vs = frames s"
    by (cases "virials s") auto
  with assms(2) vs have "j < length vs" and "is_3x3 (vs ! j)"
    by (simp_all add: list_all_length)
  with v show "\<exists>vs. virials s = Some vs \<and> j < length vs \<and> is_3x3 (vs ! j)" by simp
qed

lemma store_virial_ok:
  assumes "well_shaped s" and "j < frames s" and "k < length virs"
  shows "\<exists>virs'. store_virial s j (has_virial s ! j) virs k = Inr virs'"
proof (cases "has_virial s ! j")
  case True
  from well_shaped_has_virial(2) [OF assms(1,2) True] obtain vs where
    "virials s = Some vs" and "j < length vs" and "is_3x3 (vs ! j)" by blast
  with True assms(3) show ?thesis
    by (simp add: store_virial_def get_key_def get_at_def set_at_def convervirial_3x3)
next
  case False
  then show ?thesis by (simp add: store_virial_def)
qed

lemma well_shaped_cell:
  assumes "well_shaped s" and "j < frames s"
  shows "j < length (cells s)" and "j < length (coords s)"
    and "\<exists>c9 vol. reshape_9 (cells s ! j) = Inr c9 \<and> vec2volume c9 = Inr vol"
proof -
  from assms show j: "j < length (cells s)" and "j < length (coords s)"
    by (simp_all add: well_shaped_def)
  from assms(1) j have "is_3x3 (cells s ! j)"
    by (simp add: well_shaped_def list_all_length)
  from reshape_9_3x3 [OF this] vec2volume_length_9 [of "concat (cells s ! j)"]
  show "\<exists>c9 vol. reshape_9 (cells s ! j) = Inr c9 \<and> vec2volume c9 = Inr vol"
    by auto
qed

lemma covered_frame_covered: "covered s \<Longrightarrow> j < frames s \<Longrightarrow> frame_covered s j"
  by (auto simp: covered_def frame_covered_def split: option.splits)

lemma merge_frame_ok:
  assumes "well_shaped s" and "frame_covered s j" and "j < frames s"
    and "wf_merged d" and "nat (ifr + 1) < nframe d"
  shows "\<exists>d'. merge_frame s j (ifr, d) = Inr (ifr + 1, d')"
proof -
  let ?k = "nat (ifr + 1)"
  from assms(4,5) have k: "?k < length (m_atom_numbs d)" "?k < length (m_has_virial d)"
    "?k < length (m_energies d)" "?k < length (m_cells d)" "?k < length (m_volume d)"
    "?k < length (m_docname d)" "?k < length (m_virials d)"
    by (simp_all add: wf_merged_def)
  from assms(2) obtain ens fs where ens: "energies s = Some ens" "j < length ens"
    and fs: "forces s = Some fs" "j < length fs"
    by (auto simp: frame_covered_def split: option.splits)
  from store_virial_ok [OF assms(1,3) k(7)] obtain virs where
    v: "store_virial s j (has_virial s ! j) (m_virials d) ?k = Inr virs" by blast
  from well_shaped_cell(3) [OF assms(1,3)] obtain c9 vol where
    c: "reshape_9 (cells s ! j) = Inr c9" "vec2volume c9 = Inr vol" by blast
  note j = well_shaped_has_virial(1) [OF assms(1,3)] well_shaped_cell(1,2) [OF assms(1,3)]
  from k j ens fs show ?thesis
    unfolding merge_frame_def Let_def fst_conv snd_conv
    by (simp add: set_at_def get_at_def get_key_def v c)
qed

lemma merge_frame_KeyError:
  assumes "well_shaped s" and "energies s = None \<or> forces s = None"
    and "wf_merged d" and "nat (ifr + 1) < nframe d"
  shows "merge_frame s 0 (ifr, d) = Inl KeyError"
proof -
  let ?k = "nat (ifr + 1)"
  from assms(1) have f: "0 < frames s" by (simp add: well_shaped_def)
  from assms(3,4) have k: "?k < length (m_atom_numbs d)" "?k < length (m_has_virial d)"
    "?k < length (m_energies d)" "?k < length (m_cells d)" "?k < length (m_volume d)"
    "?k < length (m_docname d)" "?k < length (m_virials d)"
    by (simp_all add: wf_merged_def)
  from store_virial_ok [OF assms(1) f k(7)] obtain virs where
    v: "store_virial s 0 (has_virial s ! 0) (m_virials d) ?k = Inr virs" by blast
  from well_shaped_cell(3) [OF assms(1) f] obtain c9 vol where
    c: "reshape_9 (cells s ! 0) = Inr c9" "vec2volume c9 = Inr vol" by blast
  note j = well_shaped_has_virial(1) [OF assms(1) f] well_shaped_cell(1,2) [OF assms(1) f]
  show ?thesis
  proof (cases "energies s")
    case None
    with k j show ?thesis
      unfolding merge_frame_def Let_def fst_conv snd_conv
      by (simp add: set_at_def get_at_def get_key_def)
  next
    case (Some ens)
    with assms(1,2) have "ens \<noteq> []" and "forces s = None"
      by (auto simp: well_shaped_def)
    with Some k j show ?thesis
      unfolding merge_frame_def Let_def fst_conv snd_conv
      by (simp add: set_at_def get_at_def get_key_def v c)
  qed
qed

lemma merge_frame_IndexError:
  assumes "well_shaped s" and "energies s = Some ens" and "forces s = Some fs"
    and "j < frames s" and "\<not> frame_covered s j"
    and "wf_merged d" and "nat (ifr + 1) < nframe d"
  shows "merge_frame s j (ifr, d) = Inl IndexError"
proof -
  let ?k = "nat (ifr + 1)"
  from assms(6,7) have k: "?k < length (m_atom_numbs d)" "?k < length (m_has_virial d)"
    "?k < length (m_energies d)" "?k < length (m_cells d)" "?k < length (m_volume d)"
    "?k < length (m_docname d)" "?k < length (m_virials d)"
    by (simp_all add: wf_merged_def)
  from store_virial_ok [OF assms(1,4) k(7)] obtain virs where
    v: "store_virial s j (has_virial s ! j) (m_virials d) ?k = Inr virs" by blast
  from well_shaped_cell(3) [OF assms(1,4)] obtain c9 vol where
    c: "reshape_9 (cells s ! j) = Inr c9" "vec2volume c9 = Inr vol" by blast
  note j = well_shaped_has_virial(1) [OF assms(1,4)] well_shaped_cell(1,2) [OF assms(1,4)]
  show ?thesis
  proof (cases "j < length ens")
    case False
    with k j assms(2) show ?thesis
      unfolding merge_frame_def Let_def fst_conv snd_conv
      by (simp add: set_at_def get_at_def get_key_def)
  next
    case True
    with assms(2,3,5) have "\<not> j < length fs"
      by (simp add: frame_covered_def)
    with True k j assms(2,3) show ?thesis
      unfolding merge_frame_def Let_def fst_conv snd_conv
      by (simp add: set_at_def get_at_def get_key_def v c)
  qed
qed

text \<open>The first frame of a system that is not covered, and the error it raises.\<close>

lemma first_failing_frame:
  assumes "well_shaped s" and "\<not> covered s"
  shows "\<exists>j0. j0 < frames s \<and> (\<forall>j < j0. frame_covered s j)
     \<and> (\<forall>ifr d. wf_merged d \<and> nat (ifr + 1) < nframe d \<longrightarrow>
           merge_frame s j0 (ifr, d) =
             Inl (if energies s = None \<or> forces s = None then KeyError else IndexError))"
proof (cases "energies s = None \<or> forces s = None")
  case True
  from assms(1) have "0 < frames s" by (simp add: well_shaped_def)
  with True merge_frame_KeyError [OF assms(1) True] show ?thesis
    by (intro exI [of _ 0]) simp
next
  case False
  then obtain ens fs where e: "energies s = Some ens" and f: "forces s = Some fs"
    by auto
  define j0 where "j0 = min (length ens) (length fs)"
  from assms(2) e f have 1: "j0 < frames s"
    by (auto simp: covered_def j0_def)
  have 2: "\<forall>j < j0. frame_covered s j"
    by (simp add: frame_covered_def e f j0_def)
  have 3: "\<not> frame_covered s j0"
    by (auto simp: frame_covered_def e f j0_def)
  from merge_frame_IndexError [OF assms(1) e f 1 3] 1 2 show ?thesis
    by (intro exI [of _ j0]) (simp add: e f)
qed

lemma merge_list_ok:
  assumes "\<forall>p \<in> set ps. well_shaped (fst p) \<and> frame_covered (fst p) (snd p)
             \<and> snd p < frames (fst p)"
    and "wf_merged d" and "- 1 \<le> ifr" and "nat (ifr + 1) + length ps \<le> nframe d"
  shows "\<exists>d'. merge_list ps (ifr, d) = Inr (ifr + int (length ps), d')
           \<and> wf_merged d' \<and> nframe d' = nframe d"
  using assms
proof (induction ps arbitrary: ifr d)
  case Nil
  then show ?case by simp
next
  case (Cons p ps)
  from Cons.prems(1) have p: "well_shaped (fst p)" "frame_covered (fst p) (snd p)"
    "snd p < frames (fst p)"
    by simp_all
  from Cons.prems(4) have "nat (ifr + 1) < nframe d" by simp
  from merge_frame_ok [OF p Cons.prems(2) this] obtain d1 where
    step: "merge_frame (fst p) (snd p) (ifr, d) = Inr (ifr + 1, d1)" by blast
  note f = merge_frame_Inr [OF step Cons.prems(2)]
  have 1: "\<forall>p \<in> set ps. well_shaped (fst p) \<and> frame_covered (fst p) (snd p)
             \<and> snd p < frames (fst p)"
    using Cons.prems(1) by simp
  have 3: "- 1 \<le> ifr + 1" using Cons.prems(3) by simp
  have 4: "nat (ifr + 1 + 1) + length ps \<le> nframe d1"
    using Cons.prems(3,4) f(4) by simp
  from Cons.IH [OF 1 f(3) 3 4] obtain d' where
    "merge_list ps (ifr + 1, d1) = Inr (ifr + 1 + int (length ps), d')"
    and "wf_merged d'" and "nframe d' = nframe d1"
    by blast
  with step f(4) show ?case
    by (simp add: add.assoc)
qed

lemma frame_list_append: "frame_list (xs @ ys) = frame_list xs @ frame_list ys"
  by (simp add: frame_list_def)

lemma frame_list_Cons:
  "frame_list (is # dm) = map (\<lambda>j. (snd is, j)) [0..<frames (snd is)] @ frame_list dm"
  by (simp add: frame_list_def)

lemma in_frame_list:
  "p \<in> set (frame_list dm) \<longleftrightarrow> (\<exists>is \<in> set dm. fst p = snd is \<and> snd p < frames (snd is))"
  by (cases p) (force simp: frame_list_def)

lemma read_multi_deepmd_merge:
  assumes "load_systems folder 0 entries = Inr dm" and "dm \<noteq> []"
  shows "read_multi_deepmd folder entries =
           bind (merge_list (frame_list dm) (- 1, init_data (length (frame_list dm))))
             (\<lambda>st. Inr (snd st))"
  using assms
  by (simp add: read_multi_deepmd_def np_sum_def py_range_def Let_def merge_systems_list
      length_frame_list)

lemma merge_covers:
  assumes "load_systems folder 0 entries = Inr dm"
    and "read_multi_deepmd folder entries = Inr d"
    and "is \<in> set dm"
  shows "0 < frames (snd is)
     \<and> (\<exists>ens fs. energies (snd is) = Some ens \<and> forces (snd is) = Some fs
           \<and> frames (snd is) \<le> length ens \<and> frames (snd is) \<le> length fs)"
proof -
  let ?s = "snd is"
  from load_systems_well_shaped [OF assms(1,3)] have f: "0 < frames ?s"
    by (simp add: well_shaped_def)
  from read_multi_deepmd_Inr [OF assms(2)] assms(1) have
    n: "nframe d = length (frame_list dm)"
    and st: "\<And>g. g < nframe d \<Longrightarrow>
          stored (fst (frame_list dm ! g)) (snd (frame_list dm ! g)) (replicate 6 0) d g"
    by auto
  have cov: "\<exists>ens fs. energies ?s = Some ens \<and> j < length ens \<and> forces ?s = Some fs \<and> j < length fs"
    if "j < frames ?s" for j
  proof -
    from that assms(3) have "(?s, j) \<in> set (frame_list dm)"
      by (auto simp: in_frame_list)
    then obtain g where "g < length (frame_list dm)" and "frame_list dm ! g = (?s, j)"
      by (auto simp: in_set_conv_nth)
    with st [of g] n have "stored ?s j (replicate 6 0) d g" by simp
    then show ?thesis by (auto simp: stored_def)
  qed
  from cov [OF f] obtain ens fs where e: "energies ?s = Some ens" and fo: "forces ?s = Some fs"
    by blast
  have "frames ?s \<le> length ens"
  proof (rule ccontr)
    assume "\<not> frames ?s \<le> length ens"
    then have "length ens < frames ?s" by simp
    from cov [OF this] e show False by simp
  qed
  moreover have "frames ?s \<le> length fs"
  proof (rule ccontr)
    assume "\<not> frames ?s \<le> length fs"
    then have "length fs < frames ?s" by simp
    from cov [OF this] fo show False by simp
  qed
  ultimately show ?thesis using f e fo by simp
qed

lemma upt_split_at:
  assumes "j0 < n"
  shows "[0..<n] = [0..<j0] @ j0 # [Suc j0..<n]"
proof -
  from assms have "[0..<n] = [0..<j0] @ [j0..<n]"
    using upt_add_eq_append [of 0 j0 "n - j0"] by simp
  with assms show ?thesis
    by (simp add: upt_conv_Cons)
qed

lemma merge_first_uncovered:
  assumes "load_systems folder 0 entries = Inr dm"
    and "dm = pre @ is # post"
    and "\<forall>p \<in> set pre. covered (snd p)"
    and "\<not> covered (snd is)"
  shows "read_multi_deepmd folder entries =
           Inl (if energies (snd is) = None \<or> forces (snd is) = None
                then KeyError else IndexError)"
proof -
  let ?s = "snd is"
  define err where
    "err = (if energies ?s = None \<or> forces ?s = None then KeyError else IndexError)"
  from assms(2) have "is \<in> set dm" by simp
  from load_systems_well_shaped [OF assms(1) this] have ws: "well_shaped ?s" .
  from first_failing_frame [OF ws assms(4)] obtain j0 where j0: "j0 < frames ?s"
    and cov: "\<forall>j < j0. frame_covered ?s j"
    and fail: "\<And>ifr d. wf_merged d \<Longrightarrow> nat (ifr + 1) < nframe d \<Longrightarrow>
                 merge_frame ?s j0 (ifr, d) = Inl err"
    unfolding err_def by blast
  define front where "front = frame_list pre @ map (\<lambda>j. (?s, j)) [0..<j0]"
  define rest where "rest = map (\<lambda>j. (?s, j)) [Suc j0..<frames ?s] @ frame_list post"
  define n where "n = length (frame_list dm)"
  define l where "l = length front"
  have fl: "frame_list dm = front @ (?s, j0) # rest"
    unfolding assms(2) frame_list_append frame_list_Cons upt_split_at [OF j0]
      front_def rest_def
    by simp
  have good: "\<forall>p \<in> set front.
      well_shaped (fst p) \<and> frame_covered (fst p) (snd p) \<and> snd p < frames (fst p)"
  proof
    fix p assume "p \<in> set front"
    then consider "p \<in> set (frame_list pre)" | "fst p = ?s" "snd p < j0"
      by (auto simp: front_def)
    then show "well_shaped (fst p) \<and> frame_covered (fst p) (snd p) \<and> snd p < frames (fst p)"
    proof cases
      case 1
      then obtain q where q: "q \<in> set pre" and p: "fst p = snd q" "snd p < frames (snd q)"
        by (auto simp: in_frame_list)
      from q assms(2) have "q \<in> set dm" by simp
      from load_systems_well_shaped [OF assms(1) this] have "well_shaped (snd q)" .
      moreover from q assms(3) have "covered (snd q)" by simp
      from covered_frame_covered [OF this p(2)] have "frame_covered (snd q) (snd p)" .
      ultimately show ?thesis using p by simp
    next
      case 2
      with ws cov j0 show ?thesis by simp
    qed
  qed
  have ln: "l < n"
    unfolding l_def n_def fl by simp
  then have "nat (- 1 + 1) + length front \<le> nframe (init_data n)"
    by (simp add: nframe_init_data l_def)
  from merge_list_ok [OF good wf_init_data _ this] obtain d1 where
    pre: "merge_list front (- 1, init_data n) = Inr (- 1 + int l, d1)"
    and wf: "wf_merged d1" and n1: "nframe d1 = n"
    by (auto simp: nframe_init_data l_def)
  from ln n1 have "nat (- 1 + int l + 1) < nframe d1" by simp
  from fail [OF wf this]
  have k: "merge_frame ?s j0 (- 1 + int l, d1) = Inl err" .
  have "merge_list (frame_list dm) (- 1, init_data n) =
          bind (merge_list front (- 1, init_data n)) (merge_list ((?s, j0) # rest))"
    by (simp only: fl merge_list_append)
  also have "\<dots> = Inl err"
    using k by (simp add: pre)
  finally have "merge_list (frame_list dm) (- 1, init_data (length (frame_list dm))) = Inl err"
    by (simp only: n_def)
  moreover from assms(2) have "dm \<noteq> []" by simp
  ultimately have "read_multi_deepmd folder entries = Inl err"
    by (simp add: read_multi_deepmd_merge [OF assms(1)])
  then show ?thesis
    by (simp only: err_def)
qed

lemma merge_fails_on_missing_key:
  assumes "load_systems folder 0 entries = Inr dm"
    and "is \<in> set dm"
    and "energies (snd is) = None \<or> forces (snd is) = None"
  shows "read_multi_deepmd folder entries = Inl KeyError
       \<or> read_multi_deepmd folder entries = Inl IndexError"
proof -
  from assms(3) have "\<not> covered (snd is)"
    by (auto simp: covered_def)
  with assms(2) have "\<exists>x \<in> set dm. \<not> covered (snd x)" by blast
  from split_list_first_prop [OF this] obtain pre x post where
    "dm = pre @ x # post" and "\<not> covered (snd x)" and "\<forall>p \<in> set pre. \<not> \<not> covered (snd p)"
    by blast
  then have "dm = pre @ x # post" "\<forall>p \<in> set pre. covered (snd p)" "\<not> covered (snd x)"
    by simp_all
  from merge_first_uncovered [OF assms(1) this] show ?thesis
    by (simp split: if_splits)
qed

text \<open>
  C10 as stated fails: ``for any system lacking either array the merge fails
  (missing-key error)''. In \<open>ex_short_energy\<close> the second system has no \<^verbatim>\<open>force.npy\<close>,
  so it lacks the key \<^verbatim>\<open>forces\<close>; but the first system has one energy for its two
  merged frames, and the merge stops there, at \<^verbatim>\<open>data_multi[isystem]['energies'][j]\<close>
  with \<open>j = 1\<close>, with an index error, before it reaches the second system.
\<close>

theorem merge_missing_forces_index_error:
  "read_multi_deepmd ''./deepmd'' ex_short_energy = Inl IndexError
   \<and> map_sum id (map (\<lambda>is. (frames (snd is), map_option length (energies (snd is)),
                            map_option length (forces (snd is)))))
       (load_systems ''./deepmd'' 0 ex_short_energy)
     = Inr [(2, Some 1, Some 3), (1, Some 1, None)]"
proof (rule conjI)
  have "map_sum id (\<lambda>_. ()) (read_multi_deepmd ''./deepmd'' ex_short_energy) = Inl IndexError"
    by code_simp
  then show "read_multi_deepmd ''./deepmd'' ex_short_energy = Inl IndexError"
    by (cases "read_multi_deepmd ''./deepmd'' ex_short_energy") auto
  show "map_sum id (map (\<lambda>is. (frames (snd is), map_option length (energies (snd is)),
                            map_option length (forces (snd is)))))
       (load_systems ''./deepmd'' 0 ex_short_energy)
     = Inr [(2, Some 1, Some 3), (1, Some 1, None)]"
    by code_simp
qed

text \<open>
  C10 (amended). Let the first loop of \<open>read_multi_deepmd\<close> have built \<^verbatim>\<open>data_multi\<close>,
  and call a system covered (\<open>covered\<close>) when it has the keys \<^verbatim>\<open>energies\<close> and
  \<^verbatim>\<open>forces\<close> with at least \<^verbatim>\<open>frames\<close> entries each. The merge returns a collection
  only if every system is covered (and has at least one frame to merge). The first
  system, in merge order, that is not covered makes the merge fail: with KeyError when
  it lacks one of the two keys, with IndexError when it has both and one of them is
  shorter than \<^verbatim>\<open>frames\<close>. So whenever some system lacks one of the two keys the merge
  fails, with KeyError or with the IndexError of a system before it.
\<close>

theorem merge_requires_energies_and_forces:
  assumes "load_systems folder 0 entries = Inr dm"
  shows "(\<forall>d. read_multi_deepmd folder entries = Inr d \<longrightarrow>
            (\<forall>is \<in> set dm. 0 < frames (snd is)
               \<and> (\<exists>ens fs. energies (snd is) = Some ens \<and> forces (snd is) = Some fs
                     \<and> frames (snd is) \<le> length ens \<and> frames (snd is) \<le> length fs)))
       \<and> (\<forall>pre is post. dm = pre @ is # post \<and> (\<forall>p \<in> set pre. covered (snd p))
             \<and> \<not> covered (snd is) \<longrightarrow>
             read_multi_deepmd folder entries =
               Inl (if energies (snd is) = None \<or> forces (snd is) = None
                    then KeyError else IndexError))
       \<and> (\<forall>is \<in> set dm. energies (snd is) = None \<or> forces (snd is) = None \<longrightarrow>
             read_multi_deepmd folder entries = Inl KeyError
             \<or> read_multi_deepmd folder entries = Inl IndexError)"
proof (intro conjI allI impI ballI)
  fix d x
  assume "read_multi_deepmd folder entries = Inr d" and "x \<in> set dm"
  from merge_covers [OF assms this]
  show "0 < frames (snd x)"
    and "\<exists>ens fs. energies (snd x) = Some ens \<and> forces (snd x) = Some fs
           \<and> frames (snd x) \<le> length ens \<and> frames (snd x) \<le> length fs"
    by simp_all
next
  fix pre x post
  assume "dm = pre @ x # post \<and> (\<forall>p \<in> set pre. covered (snd p)) \<and> \<not> covered (snd x)"
  then have "dm = pre @ x # post" "\<forall>p \<in> set pre. covered (snd p)" "\<not> covered (snd x)"
    by simp_all
  from merge_first_uncovered [OF assms this]
  show "read_multi_deepmd folder entries =
          Inl (if energies (snd x) = None \<or> forces (snd x) = None
               then KeyError else IndexError)" .
next
  fix x
  assume "x \<in> set dm" and "energies (snd x) = None \<or> forces (snd x) = None"
  from merge_fails_on_missing_key [OF assms this]
  show "read_multi_deepmd folder entries = Inl KeyError
      \<or> read_multi_deepmd folder entries = Inl IndexError" .
qed

theorem merge_requires_energies_and_forces_witness:
  "(\<exists>dm. load_systems ''./deepmd'' 0 ex_later_no_force = Inr dm \<and> length dm = 2
      \<and> covered (snd (dm ! 0)) \<and> forces (snd (dm ! 1)) = None
      \<and> read_multi_deepmd ''./deepmd'' ex_later_no_force = Inl KeyError)
   \<and> (\<exists>dm ens fs. load_systems ''./deepmd'' 0 ex_short_energy = Inr dm
      \<and> energies (snd (dm ! 0)) = Some ens \<and> forces (snd (dm ! 0)) = Some fs
      \<and> length ens = 1 \<and> frames (snd (dm ! 0)) = 2
      \<and> read_multi_deepmd ''./deepmd'' ex_short_energy = Inl IndexError)
   \<and> (\<exists>dm. load_systems ''./deepmd'' 0 ex_no_energy = Inr dm
      \<and> energies (snd (dm ! 0)) = None
      \<and> read_multi_deepmd ''./deepmd'' ex_no_energy = Inl KeyError)
   \<and> (\<exists>dm d. load_systems ''./deepmd'' 0 ex_parent = Inr dm
      \<and> read_multi_deepmd ''./deepmd'' ex_parent = Inr d
      \<and> (\<exists>ens fs. energies (snd (hd dm)) = Some ens \<and> forces (snd (hd dm)) = Some fs
            \<and> frames (snd (hd dm)) \<le> length ens \<and> frames (snd (hd dm)) \<le> length fs))"
proof -
  have "map_sum id (\<lambda>dm. (length dm, covered (snd (dm ! 0)), forces (snd (dm ! 1))))
          (load_systems ''./deepmd'' 0 ex_later_no_force) = Inr (2, True, None)"
    by code_simp
  then obtain dm1 where dm1: "load_systems ''./deepmd'' 0 ex_later_no_force = Inr dm1"
    and l1: "length dm1 = 2" and c1: "covered (snd (dm1 ! 0))"
    and f1: "forces (snd (dm1 ! 1)) = None"
    by (cases "load_systems ''./deepmd'' 0 ex_later_no_force") auto
  from l1 have s1: "dm1 = [dm1 ! 0] @ dm1 ! 1 # []"
    by (cases dm1; cases "tl dm1") auto
  from f1 have n1: "\<not> covered (snd (dm1 ! 1))"
    by (simp add: covered_def split: option.splits)
  from merge_requires_energies_and_forces [OF dm1] s1 c1 n1 f1
  have a: "read_multi_deepmd ''./deepmd'' ex_later_no_force = Inl KeyError"
    by (elim conjE allE [of _ "[dm1 ! 0]"] allE [of _ "dm1 ! 1"] allE [of _ "[]"]) simp
  have "map_sum id (\<lambda>dm. (length dm, map_option length (energies (snd (dm ! 0))),
            map_option length (forces (snd (dm ! 0))), frames (snd (dm ! 0))))
          (load_systems ''./deepmd'' 0 ex_short_energy) = Inr (2, Some 1, Some 3, 2)"
    by code_simp
  then obtain dm2 ens fs where dm2: "load_systems ''./deepmd'' 0 ex_short_energy = Inr dm2"
    and l2: "length dm2 = 2" and e2: "energies (snd (dm2 ! 0)) = Some ens" "length ens = 1"
    and f2: "forces (snd (dm2 ! 0)) = Some fs" and fr2: "frames (snd (dm2 ! 0)) = 2"
    by (cases "load_systems ''./deepmd'' 0 ex_short_energy") auto
  from l2 have s2: "dm2 = [] @ dm2 ! 0 # [dm2 ! 1]"
    by (cases dm2; cases "tl dm2") auto
  from e2 f2 fr2 have n2: "\<not> covered (snd (dm2 ! 0))"
    by (simp add: covered_def)
  from merge_requires_energies_and_forces [OF dm2] s2 n2 e2 f2
  have b: "read_multi_deepmd ''./deepmd'' ex_short_energy = Inl IndexError"
    by (elim conjE allE [of _ "[]"] allE [of _ "dm2 ! 0"] allE [of _ "[dm2 ! 1]"]) simp
  have "map_sum id (\<lambda>dm. (length dm, energies (snd (dm ! 0))))
          (load_systems ''./deepmd'' 0 ex_no_energy) = Inr (1, None)"
    by code_simp
  then obtain dm4 where dm4: "load_systems ''./deepmd'' 0 ex_no_energy = Inr dm4"
    and l4: "length dm4 = 1" and e4: "energies (snd (dm4 ! 0)) = None"
    by (cases "load_systems ''./deepmd'' 0 ex_no_energy") auto
  from l4 have "dm4 ! 0 \<in> set dm4"
    by (cases dm4) auto
  with merge_requires_energies_and_forces [OF dm4] e4
  have "read_multi_deepmd ''./deepmd'' ex_no_energy = Inl KeyError
      \<or> read_multi_deepmd ''./deepmd'' ex_no_energy = Inl IndexError"
    by blast
  moreover have "map_sum id (\<lambda>_. ()) (read_multi_deepmd ''./deepmd'' ex_no_energy)
      \<noteq> Inl IndexError"
    by code_simp
  ultimately have c: "read_multi_deepmd ''./deepmd'' ex_no_energy = Inl KeyError"
    by auto
  have "map_sum id length (load_systems ''./deepmd'' 0 ex_parent) = Inr 2"
    by code_simp
  then obtain dm3 where dm3: "load_systems ''./deepmd'' 0 ex_parent = Inr dm3"
    and "length dm3 = 2"
    by (cases "load_systems ''./deepmd'' 0 ex_parent") auto
  then have h: "hd dm3 \<in> set dm3"
    by (cases dm3) auto
  have "\<not> isl (read_multi_deepmd ''./deepmd'' ex_parent)"
    by code_simp
  then obtain d3 where d3: "read_multi_deepmd ''./deepmd'' ex_parent = Inr d3"
    by (cases "read_multi_deepmd ''./deepmd'' ex_parent") auto
  from merge_requires_energies_and_forces [OF dm3] d3 h
  have d: "\<exists>ens fs. energies (snd (hd dm3)) = Some ens \<and> forces (snd (hd dm3)) = Some fs
            \<and> frames (snd (hd dm3)) \<le> length ens \<and> frames (snd (hd dm3)) \<le> length fs"
    by blast
  from dm1 l1 c1 f1 a have A: "\<exists>dm. load_systems ''./deepmd'' 0 ex_later_no_force = Inr dm
      \<and> length dm = 2 \<and> covered (snd (dm ! 0)) \<and> forces (snd (dm ! 1)) = None
      \<and> read_multi_deepmd ''./deepmd'' ex_later_no_force = Inl KeyError"
    by blast
  from dm2 e2 f2 fr2 b have B: "\<exists>dm ens fs. load_systems ''./deepmd'' 0 ex_short_energy = Inr dm
      \<and> energies (snd (dm ! 0)) = Some ens \<and> forces (snd (dm ! 0)) = Some fs
      \<and> length ens = 1 \<and> frames (snd (dm ! 0)) = 2
      \<and> read_multi_deepmd ''./deepmd'' ex_short_energy = Inl IndexError"
    by blast
  from dm4 e4 c have C: "\<exists>dm. load_systems ''./deepmd'' 0 ex_no_energy = Inr dm
      \<and> energies (snd (dm ! 0)) = None
      \<and> read_multi_deepmd ''./deepmd'' ex_no_energy = Inl KeyError"
    by blast
  from dm3 d3 d have D: "\<exists>dm d. load_systems ''./deepmd'' 0 ex_parent = Inr dm
      \<and> read_multi_deepmd ''./deepmd'' ex_parent = Inr d
      \<and> (\<exists>ens fs. energies (snd (hd dm)) = Some ens \<and> forces (snd (hd dm)) = Some fs
            \<and> frames (snd (hd dm)) \<le> length ens \<and> frames (snd (hd dm)) \<le> length fs)"
    by blast
  from A B C D show ?thesis
    by (intro conjI)
qed

section \<open>The virial of a merged frame\<close>

lemma frame_records_append:
  "frame_records fstr d (xs @ ys) =
     bind (frame_records fstr d xs) (\<lambda>a. bind (frame_records fstr d ys) (\<lambda>b. Inr (a @ b)))"
proof (induction xs)
  case Nil
  show ?case by (cases "frame_records fstr d ys") simp_all
next
  case (Cons x xs)
  show ?case
    by (cases "frame_record fstr d x"; cases "frame_records fstr d xs";
        cases "frame_records fstr d ys") (simp_all add: Cons.IH)
qed

lemma dump_frame_position:
  assumes "dump fstr d = Inr out" and "g < nframe d"
  shows "\<exists>h before r after. header_lines d [0..<nframe d] = Inr h
     \<and> frame_records fstr d [0..<g] = Inr before \<and> frame_record fstr d g = Inr r
     \<and> frame_records fstr d [Suc g..<nframe d] = Inr after
     \<and> out = str_nat (nframe d) @ nl @ h @ before @ r @ after"
proof -
  from assms(1) obtain h b where
    h: "header_lines d [0..<nframe d] = Inr h"
    and b: "frame_records fstr d [0..<nframe d] = Inr b"
    and out: "out = str_nat (nframe d) @ nl @ h @ b"
    by (auto simp: dump_def bind_eq_Inr_iff)
  from assms(2) have "[0..<g + (nframe d - g)] = [0..<g] @ [g..<g + (nframe d - g)]"
    by (intro upt_add_eq_append) simp
  with assms(2) have "[0..<nframe d] = [0..<g] @ g # [Suc g..<nframe d]"
    by (simp add: upt_conv_Cons)
  with b have "frame_records fstr d ([0..<g] @ g # [Suc g..<nframe d]) = Inr b"
    by simp
  then obtain before r after where
    "frame_records fstr d [0..<g] = Inr before" and "frame_record fstr d g = Inr r"
    and "frame_records fstr d [Suc g..<nframe d] = Inr after" and "b = before @ r @ after"
    unfolding frame_records_append
    by (auto simp: bind_eq_Inr_iff)
  with h out show ?thesis by simp
qed

text \<open>
  C8. For every frame \<open>g\<close> of the merged collection, which is the frame \<open>j\<close> of a
  system \<open>s\<close>: the flag of the frame is \<open>has_virial[j]\<close> of the system. When it is true,
  the system has a 3x3 virial \<open>M\<close> for \<open>j\<close> and the virial vector of the frame is
  \<open>[M[0,0], M[1,1], M[2,2], M[0,1], M[1,2], M[0,2]]\<close>, which \<open>convervirial\<close> returns for
  \<open>M\<close>, and the energy line is the energy followed by these 6 values; when it is false,
  the virial vector is the row of 6 zeros and the energy line is the energy alone. In
  every text that \<open>dump\<close> writes, this line stands after the header and the records of
  the frames before \<open>g\<close>, as the first line of the record of \<open>g\<close>.
\<close>

theorem merged_virial_and_energy_line:
  assumes "load_systems folder 0 entries = Inr dm"
    and "read_multi_deepmd folder entries = Inr d"
    and "g < nframe d"
  shows "\<exists>s j e line.
       g < length (frame_list dm) \<and> frame_list dm ! g = (s, j)
     \<and> m_has_virial d ! g = has_virial s ! j
     \<and> (\<exists>ens. energies s = Some ens \<and> j < length ens \<and> e = ens ! j)
     \<and> m_energies d ! g = e
     \<and> (if has_virial s ! j
        then (\<exists>vs. virials s = Some vs \<and> j < length vs
                \<and> length (vs ! j) = 3 \<and> (\<forall>row \<in> set (vs ! j). length row = 3)
                \<and> convervirial (vs ! j) = Inr (m_virials d ! g)
                \<and> m_virials d ! g =
                    [vs ! j ! 0 ! 0, vs ! j ! 1 ! 1, vs ! j ! 2 ! 2,
                     vs ! j ! 0 ! 1, vs ! j ! 1 ! 2, vs ! j ! 0 ! 2])
             \<and> line = fstr e @ '' '' @ join '' '' (map fstr (m_virials d ! g)) @ nl
        else m_virials d ! g = [0, 0, 0, 0, 0, 0] \<and> line = fstr e @ nl)
     \<and> energy_line fstr d g = Inr line
     \<and> (\<forall>out. dump fstr d = Inr out \<longrightarrow>
           (\<exists>h before rest after. header_lines d [0..<nframe d] = Inr h
              \<and> frame_records fstr d [0..<g] = Inr before
              \<and> frame_record fstr d g = Inr (line @ rest)
              \<and> frame_records fstr d [Suc g..<nframe d] = Inr after
              \<and> out = str_nat (nframe d) @ nl @ h @ before @ line @ rest @ after))"
proof -
  from read_multi_deepmd_Inr [OF assms(2)] assms(1) have
    n: "nframe d = length (frame_list dm)" and wf: "wf_merged d"
    and st: "\<And>g. g < nframe d \<Longrightarrow>
          stored (fst (frame_list dm ! g)) (snd (frame_list dm ! g)) (replicate 6 0) d g"
    by auto
  obtain s j where sj: "frame_list dm ! g = (s, j)"
    by (cases "frame_list dm ! g") auto
  from assms(3) n have gl: "g < length (frame_list dm)" by simp
  then have "(s, j) \<in> set (frame_list dm)"
    using sj by (metis nth_mem)
  then obtain "is" where "is \<in> set dm" and "s = snd is"
    by (auto simp: in_frame_list)
  with load_systems_well_shaped [OF assms(1)] have ws: "well_shaped s" by simp
  from st [OF assms(3)] sj have sto: "stored s j (replicate 6 0) d g" by simp
  from wf assms(3) have len: "g < length (m_has_virial d)" "g < length (m_energies d)"
    "g < length (m_virials d)"
    by (simp_all add: wf_merged_def)
  from sto obtain ens where ens: "energies s = Some ens" "j < length ens"
    "m_energies d ! g = ens ! j"
    by (auto simp: stored_def)
  from sto have hv: "m_has_virial d ! g = has_virial s ! j"
    by (simp add: stored_def)
  define line where "line =
    (if has_virial s ! j then fstr (ens ! j) @ '' '' @ join '' '' (map fstr (m_virials d ! g)) @ nl
     else fstr (ens ! j) @ nl)"
  have el: "energy_line fstr d g = Inr line"
    using hv len ens(3) by (simp add: energy_line_def get_at_def line_def)
  have vir: "if has_virial s ! j
        then (\<exists>vs. virials s = Some vs \<and> j < length vs
                \<and> length (vs ! j) = 3 \<and> (\<forall>row \<in> set (vs ! j). length row = 3)
                \<and> convervirial (vs ! j) = Inr (m_virials d ! g)
                \<and> m_virials d ! g =
                    [vs ! j ! 0 ! 0, vs ! j ! 1 ! 1, vs ! j ! 2 ! 2,
                     vs ! j ! 0 ! 1, vs ! j ! 1 ! 2, vs ! j ! 0 ! 2])
             \<and> line = fstr (ens ! j) @ '' '' @ join '' '' (map fstr (m_virials d ! g)) @ nl
        else m_virials d ! g = [0, 0, 0, 0, 0, 0] \<and> line = fstr (ens ! j) @ nl"
  proof (cases "has_virial s ! j")
    case True
    with sto obtain vs where vs: "virials s = Some vs" "j < length vs"
      "convervirial (vs ! j) = Inr (m_virials d ! g)"
      by (auto simp: stored_def)
    from ws vs(1,2) have m: "is_3x3 (vs ! j)"
      by (simp add: well_shaped_def list_all_length)
    then have shape: "length (vs ! j) = 3" "\<forall>row \<in> set (vs ! j). length row = 3"
      by (simp_all add: is_3x3_def list_all_iff)
    from convervirial_3x3 [OF m] vs(3) have
      "m_virials d ! g = [vs ! j ! 0 ! 0, vs ! j ! 1 ! 1, vs ! j ! 2 ! 2,
                          vs ! j ! 0 ! 1, vs ! j ! 1 ! 2, vs ! j ! 0 ! 2]"
      by simp
    with True vs shape show ?thesis
      by (simp add: line_def)
  next
    case False
    with sto have "m_virials d ! g = replicate 6 0" by (simp add: stored_def)
    then have "m_virials d ! g = [0, 0, 0, 0, 0, 0]"
      by (simp add: numeral_Bit0 numeral_Bit1)
    with False show ?thesis by (simp add: line_def)
  qed
  have ser: "\<exists>h before rest after. header_lines d [0..<nframe d] = Inr h
              \<and> frame_records fstr d [0..<g] = Inr before
              \<and> frame_record fstr d g = Inr (line @ rest)
              \<and> frame_records fstr d [Suc g..<nframe d] = Inr after
              \<and> out = str_nat (nframe d) @ nl @ h @ before @ line @ rest @ after"
    if "dump fstr d = Inr out" for out
  proof -
    from dump_frame_position [OF that assms(3)] obtain h before r after where
      p: "header_lines d [0..<nframe d] = Inr h" "frame_records fstr d [0..<g] = Inr before"
      "frame_record fstr d g = Inr r" "frame_records fstr d [Suc g..<nframe d] = Inr after"
      "out = str_nat (nframe d) @ nl @ h @ before @ r @ after"
      by blast
    from frame_record_parts [OF p(3)] el obtain rest where "r = line @ rest"
      by auto
    with p show ?thesis by auto
  qed
  show ?thesis
    apply (rule exI [of _ s], rule exI [of _ j], rule exI [of _ "ens ! j"], rule exI [of _ line])
    apply (intro conjI)
    subgoal by (rule gl)
    subgoal by (rule sj)
    subgoal by (rule hv)
    subgoal using ens by simp
    subgoal by (rule ens(3))
    subgoal by (rule vir)
    subgoal by (rule el)
    subgoal using ser by blast
    done
qed


theorem merged_virial_and_energy_line_witness:
  "\<exists>dm d out. load_systems ''./deepmd'' 0 ex_parent = Inr dm
     \<and> read_multi_deepmd ''./deepmd'' ex_parent = Inr d
     \<and> dump ex_fstr d = Inr out \<and> nframe d = 3
     \<and> m_has_virial d ! 0 \<and> m_virials d ! 0 = [1, 5, 9, 2, 6, 3]
     \<and> energy_line ex_fstr d 0 = Inr (''5 1 5 9 2 6 3'' @ nl)
     \<and> (\<exists>pre rest. out = pre @ (''5 1 5 9 2 6 3'' @ nl) @ rest)
     \<and> (\<exists>s j vs. frame_list dm ! 0 = (s, j) \<and> virials s = Some vs
           \<and> convervirial (vs ! j) = Inr [1, 5, 9, 2, 6, 3])
     \<and> \<not> m_has_virial d ! 2 \<and> m_virials d ! 2 = [0, 0, 0, 0, 0, 0]
     \<and> energy_line ex_fstr d 2 = Inr (''7'' @ nl)
     \<and> (\<exists>pre rest. out = pre @ (''7'' @ nl) @ rest)"
proof -
  have "\<not> isl (load_systems ''./deepmd'' 0 ex_parent)"
    by code_simp
  then obtain dm where dm: "load_systems ''./deepmd'' 0 ex_parent = Inr dm"
    by (cases "load_systems ''./deepmd'' 0 ex_parent") auto
  have "map_sum id
          (\<lambda>d. (nframe d, m_has_virial d ! 0, m_virials d ! 0, energy_line ex_fstr d 0,
                m_has_virial d ! 2, m_virials d ! 2, energy_line ex_fstr d 2,
                isl (dump ex_fstr d)))
          (read_multi_deepmd ''./deepmd'' ex_parent)
        = Inr (3, True, [1, 5, 9, 2, 6, 3], Inr (''5 1 5 9 2 6 3'' @ nl),
               False, [0, 0, 0, 0, 0, 0], Inr (''7'' @ nl), False)"
    by code_simp
  then obtain d where d: "read_multi_deepmd ''./deepmd'' ex_parent = Inr d"
    and n: "nframe d = 3"
    and f0: "m_has_virial d ! 0" "m_virials d ! 0 = [1, 5, 9, 2, 6, 3]"
      "energy_line ex_fstr d 0 = Inr (''5 1 5 9 2 6 3'' @ nl)"
    and f2: "\<not> m_has_virial d ! 2" "m_virials d ! 2 = [0, 0, 0, 0, 0, 0]"
      "energy_line ex_fstr d 2 = Inr (''7'' @ nl)"
    and "\<not> isl (dump ex_fstr d)"
    by (cases "read_multi_deepmd ''./deepmd'' ex_parent") auto
  then obtain out where out: "dump ex_fstr d = Inr out"
    by (cases "dump ex_fstr d") auto
  from n have g0: "0 < nframe d" and g2: "2 < nframe d" by simp_all
  from merged_virial_and_energy_line [OF dm d g0, of ex_fstr] obtain s j line where
    sj: "frame_list dm ! 0 = (s, j)" and hv: "m_has_virial d ! 0 = has_virial s ! j"
    and vir: "if has_virial s ! j
        then (\<exists>vs. virials s = Some vs \<and> convervirial (vs ! j) = Inr (m_virials d ! 0))
        else m_virials d ! 0 = [0, 0, 0, 0, 0, 0]"
    and el: "energy_line ex_fstr d 0 = Inr line"
    and ser: "\<exists>h before rest after.
        out = str_nat (nframe d) @ nl @ h @ before @ line @ rest @ after"
    using out by (fastforce split: if_splits)
  from el f0(3) have l0: "line = ''5 1 5 9 2 6 3'' @ nl" by simp
  from ser obtain h before rest after where
    "out = (str_nat (nframe d) @ nl @ h @ before) @ line @ (rest @ after)"
    by auto
  then have a: "\<exists>pre rest. out = pre @ (''5 1 5 9 2 6 3'' @ nl) @ rest"
    unfolding l0 by blast
  from vir hv f0(1,2) sj
  have b: "\<exists>s j vs. frame_list dm ! 0 = (s, j) \<and> virials s = Some vs
           \<and> convervirial (vs ! j) = Inr [1, 5, 9, 2, 6, 3]"
    by auto
  from merged_virial_and_energy_line [OF dm d g2, of ex_fstr] obtain line2 where
    el2: "energy_line ex_fstr d 2 = Inr line2"
    and ser2: "\<exists>h before rest after.
        out = str_nat (nframe d) @ nl @ h @ before @ line2 @ rest @ after"
    using out by fastforce
  from el2 f2(3) have l2: "line2 = ''7'' @ nl" by simp
  from ser2 obtain h2 before2 rest2 after2 where
    "out = (str_nat (nframe d) @ nl @ h2 @ before2) @ line2 @ (rest2 @ after2)"
    by auto
  then have c: "\<exists>pre rest. out = pre @ (''7'' @ nl) @ rest"
    unfolding l2 by blast
  from dm d out n f0 f2 a b c show ?thesis by blast
qed

end
